theory Spec2Isabelle
  imports Complex_Main
begin

section \<open>Python values and failures\<close>

text \<open>
  The engine is Python 3. Every \<^verbatim>\<open>raise\<close> and every failing built-in operation of
  the modelled code is a value of \<open>error\<close>; a function that can fail returns
  \<open>error + 'a\<close> with \<open>Inl\<close> for the failure.
\<close>

datatype error =
    TerminalState    \<comment> \<open>\<^verbatim>\<open>Exception("Can't generate a successor of a terminal state.")\<close>\<close>
  | IllegalAction    \<comment> \<open>\<^verbatim>\<open>Exception("Illegal action ...")\<close>, \<^verbatim>\<open>Exception("Illegal ghost action ...")\<close>\<close>
  | InvalidIndex     \<comment> \<open>\<^verbatim>\<open>Exception("Invalid index passed to getGhostState")\<close>\<close>
  | IndexError
  | TypeError
  | ValueError
  | ZeroDivisionError

definition bindE :: "error + 'a \<Rightarrow> ('a \<Rightarrow> error + 'b) \<Rightarrow> error + 'b" where
  "bindE m f = (case m of Inl e \<Rightarrow> Inl e | Inr x \<Rightarrow> f x)"

text \<open>
  A Python number used as a list index is either an \<^verbatim>\<open>int\<close> or a \<^verbatim>\<open>float\<close>.
  True division \<^verbatim>\<open>/\<close> of two ints always yields a float (its value is kept as the
  exact quotient; only the tag is ever inspected), \<^verbatim>\<open>%\<close> of two ints yields an int.
\<close>

datatype pynum = PyInt int | PyFloat rat

definition py_truediv :: "int \<Rightarrow> int \<Rightarrow> error + pynum" where
  "py_truediv a b =
     (if b = 0 then Inl ZeroDivisionError else Inr (PyFloat (of_int a / of_int b)))"

definition py_mod :: "int \<Rightarrow> int \<Rightarrow> error + pynum" where
  "py_mod a b = (if b = 0 then Inl ZeroDivisionError else Inr (PyInt (a mod b)))"

text \<open>
  \<^verbatim>\<open>xs[i]\<close> for an int \<open>i\<close>: negative indices count from the end, anything outside
  \<open>-len .. len-1\<close> raises IndexError. \<open>py_index n i\<close> is the position that is read.
\<close>

definition py_index :: "nat \<Rightarrow> int \<Rightarrow> error + nat" where
  "py_index n i =
     (let j = (if i < 0 then int n + i else i)
      in if 0 \<le> j \<and> j < int n then Inr (nat j) else Inl IndexError)"

definition py_get :: "'a list \<Rightarrow> int \<Rightarrow> error + 'a" where
  "py_get xs i = bindE (py_index (length xs) i) (\<lambda>k. Inr (xs ! k))"

definition py_set :: "'a list \<Rightarrow> int \<Rightarrow> 'a \<Rightarrow> error + 'a list" where
  "py_set xs i v = bindE (py_index (length xs) i) (\<lambda>k. Inr (xs[k := v]))"

text \<open>Indexing a list with a float raises TypeError whatever the float's value.\<close>

definition py_getitem :: "'a list \<Rightarrow> pynum \<Rightarrow> error + 'a" where
  "py_getitem xs i = (case i of PyInt k \<Rightarrow> py_get xs k | PyFloat _ \<Rightarrow> Inl TypeError)"

definition py_setitem :: "'a list \<Rightarrow> pynum \<Rightarrow> 'a \<Rightarrow> error + 'a list" where
  "py_setitem xs i v = (case i of PyInt k \<Rightarrow> py_set xs k v | PyFloat _ \<Rightarrow> Inl TypeError)"

text \<open>\<^verbatim>\<open>range(n)\<close> as a list of ints; empty for \<open>n \<le> 0\<close>.\<close>

definition py_range :: "int \<Rightarrow> int list" where
  "py_range n = map int [0 ..< nat n]"

section \<open>Grid (game.py)\<close>

text \<open>
  \<^verbatim>\<open>Grid.__init__\<close> stores \<open>width\<close>, \<open>height\<close> and \<open>data\<close>, a list of \<open>width\<close> columns of
  \<open>height\<close> booleans; \<^verbatim>\<open>CELLS_PER_INT\<close> is the constant 30.
\<close>

record Grid =
  width :: int
  height :: int
  data :: "bool list list"

definition CELLS_PER_INT :: int where
  "CELLS_PER_INT = 30"

definition Grid_init :: "int \<Rightarrow> int \<Rightarrow> bool \<Rightarrow> Grid" where
  "Grid_init w h initialValue =
     \<lparr> width = w, height = h, data = replicate (nat w) (replicate (nat h) initialValue) \<rparr>"

text \<open>\<^verbatim>\<open>Grid.__eq__\<close> compares \<open>data\<close> only.\<close>

definition Grid_eq :: "Grid \<Rightarrow> Grid \<Rightarrow> bool" where
  "Grid_eq g g' = (data g = data g')"

text \<open>\<^verbatim>\<open>self[x][y]\<close> with int indices, as the rule engine uses it.\<close>

definition Grid_get :: "Grid \<Rightarrow> int \<Rightarrow> int \<Rightarrow> error + bool" where
  "Grid_get g x y = bindE (py_get (data g) x) (\<lambda>col. py_get col y)"

text \<open>
  \<^verbatim>\<open>self[x][y] = v\<close>: \<^verbatim>\<open>__getitem__(x)\<close> returns the column object, which is then
  updated in place.
\<close>

definition Grid_set :: "Grid \<Rightarrow> int \<Rightarrow> int \<Rightarrow> bool \<Rightarrow> error + Grid" where
  "Grid_set g x y v =
     bindE (py_index (length (data g)) x) (\<lambda>i.
     bindE (py_set (data g ! i) y v) (\<lambda>col.
     Inr (g\<lparr> data := (data g)[i := col] \<rparr>)))"

text \<open>\<^verbatim>\<open>count\<close>: \<^verbatim>\<open>sum([x.count(item) for x in self.data])\<close>.\<close>

definition Grid_count :: "Grid \<Rightarrow> bool \<Rightarrow> int" where
  "Grid_count g item = sum_list (map (\<lambda>col. int (length (filter (\<lambda>b. b = item) col))) (data g))"

text \<open>
  \<^verbatim>\<open>_cellIndexToPosition\<close>: \<^verbatim>\<open>x = index / self.height\<close>, \<^verbatim>\<open>y = index % self.height\<close>.
  In Python 3 the first is true division, so \<open>x\<close> is a float.
\<close>

definition cellIndexToPosition :: "Grid \<Rightarrow> int \<Rightarrow> error + (pynum \<times> pynum)" where
  "cellIndexToPosition g index =
     bindE (py_truediv index (height g)) (\<lambda>x.
     bindE (py_mod index (height g)) (\<lambda>y. Inr (x, y)))"

text \<open>\<^verbatim>\<open>self[x][y]\<close> and \<^verbatim>\<open>self[x][y] = bit\<close> at a position computed by \<open>cellIndexToPosition\<close>.\<close>

definition Grid_getitem :: "Grid \<Rightarrow> pynum \<Rightarrow> pynum \<Rightarrow> error + bool" where
  "Grid_getitem g x y = bindE (py_getitem (data g) x) (\<lambda>col. py_getitem col y)"

definition Grid_setitem :: "Grid \<Rightarrow> pynum \<Rightarrow> pynum \<Rightarrow> bool \<Rightarrow> error + Grid" where
  "Grid_setitem g x y v =
     (case x of
        PyFloat _ \<Rightarrow> Inl TypeError
      | PyInt xi \<Rightarrow>
          bindE (py_index (length (data g)) xi) (\<lambda>i.
          bindE (py_setitem (data g ! i) y v) (\<lambda>col.
          Inr (g\<lparr> data := (data g)[i := col] \<rparr>))))"

text \<open>
  The loop of \<^verbatim>\<open>packBits\<close> over \<^verbatim>\<open>range(self.height * self.width)\<close>, with the loop
  state \<open>(bits, currentInt)\<close>; the words are collected in order.
\<close>

fun packBits_loop :: "Grid \<Rightarrow> int list \<Rightarrow> int list \<Rightarrow> int \<Rightarrow> error + (int list \<times> int)" where
  "packBits_loop g [] bits currentInt = Inr (bits, currentInt)"
| "packBits_loop g (i # is) bits currentInt =
     (let bitpos = CELLS_PER_INT - (i mod CELLS_PER_INT) - 1 in
      bindE (cellIndexToPosition g i) (\<lambda>(x, y).
      bindE (Grid_getitem g x y) (\<lambda>cell.
        let currentInt' = (if cell then currentInt + 2 ^ nat bitpos else currentInt) in
        if (i + 1) mod CELLS_PER_INT = 0
        then packBits_loop g is (bits @ [currentInt']) 0
        else packBits_loop g is bits currentInt')))"

definition packBits :: "Grid \<Rightarrow> error + int list" where
  "packBits g =
     bindE (packBits_loop g (py_range (height g * width g)) [width g, height g] 0)
       (\<lambda>(bits, currentInt). Inr (bits @ [currentInt]))"

text \<open>
  \<^verbatim>\<open>_unpackInt\<close>: negative words are refused; otherwise \<open>sz\<close> bits (the parameter \<^verbatim>\<open>size\<close>) are read from bit
  \<^verbatim>\<open>CELLS_PER_INT - 1\<close> downwards by repeated comparison and subtraction.
\<close>

fun unpackInt_loop :: "int \<Rightarrow> int list \<Rightarrow> bool list" where
  "unpackInt_loop packed [] = []"
| "unpackInt_loop packed (i # is) =
     (let n = 2 ^ nat (CELLS_PER_INT - i - 1) in
      if packed \<ge> n then True # unpackInt_loop (packed - n) is
      else False # unpackInt_loop packed is)"

definition unpackInt :: "int \<Rightarrow> int \<Rightarrow> error + bool list" where
  "unpackInt packed sz =
     (if packed < 0 then Inl ValueError else Inr (unpackInt_loop packed (py_range sz)))"

text \<open>
  \<^verbatim>\<open>_unpackBits\<close>: the inner loop over the bits of one word, with the loop state
  \<open>(grid, cell)\<close>. \<^verbatim>\<open>break\<close> leaves the inner loop only; the outer loop goes on to the
  next word (and leaves its inner loop at once).
\<close>

fun unpackBits_inner :: "Grid \<Rightarrow> int \<Rightarrow> bool list \<Rightarrow> error + (Grid \<times> int)" where
  "unpackBits_inner g cell [] = Inr (g, cell)"
| "unpackBits_inner g cell (b # bs) =
     (if cell = width g * height g then Inr (g, cell)
      else bindE (cellIndexToPosition g cell) (\<lambda>(x, y).
           bindE (Grid_setitem g x y b) (\<lambda>g'.
           unpackBits_inner g' (cell + 1) bs)))"

fun unpackBits_outer :: "Grid \<Rightarrow> int \<Rightarrow> int list \<Rightarrow> error + Grid" where
  "unpackBits_outer g cell [] = Inr g"
| "unpackBits_outer g cell (packed # ps) =
     bindE (unpackInt packed CELLS_PER_INT) (\<lambda>bs.
     bindE (unpackBits_inner g cell bs) (\<lambda>(g', cell').
     unpackBits_outer g' cell' ps))"

definition unpackBits :: "Grid \<Rightarrow> int list \<Rightarrow> error + Grid" where
  "unpackBits g bits = unpackBits_outer g 0 bits"

text \<open>
  \<^verbatim>\<open>Grid(width, height, bitRepresentation=bits)\<close>: a grid of \<^verbatim>\<open>False\<close>, filled by
  \<^verbatim>\<open>_unpackBits\<close> when the tuple is not empty.
\<close>

definition Grid_from_bits :: "int \<Rightarrow> int \<Rightarrow> int list \<Rightarrow> error + Grid" where
  "Grid_from_bits w h bits =
     (if bits \<noteq> [] then unpackBits (Grid_init w h False) bits else Inr (Grid_init w h False))"

text \<open>
  \<^verbatim>\<open>reconstituteGrid\<close> on a tuple: \<^verbatim>\<open>width, height = bitRep[:2]\<close> raises ValueError when
  the tuple has fewer than two entries.
\<close>

fun reconstituteGrid :: "int list \<Rightarrow> error + Grid" where
  "reconstituteGrid (w # h # bits) = Grid_from_bits w h bits"
| "reconstituteGrid _ = Inl ValueError"

text \<open>Serialise, then deserialise.\<close>

definition pack_unpack :: "Grid \<Rightarrow> error + Grid" where
  "pack_unpack g = bindE (packBits g) reconstituteGrid"

section \<open>Directions, configurations and agent states (game.py)\<close>

text \<open>
  Directions are the five string constants of \<^verbatim>\<open>Directions\<close>. Positions are pairs of
  Python numbers; they are modelled as exact rationals. Every position the engine derives
  from an integer start position is a multiple of one half (steps are 1, or 0.5 for a
  scared ghost), on which Python's float arithmetic is exact.
\<close>

datatype direction = North | South | East | West | Stop

type_synonym position = "rat \<times> rat"

record Configuration =
  pos :: position
  direction :: direction

record AgentState =
  start :: Configuration
  configuration :: Configuration
  isPacman :: bool
  scaredTimer :: int
  numCarrying :: int
  numReturned :: int

text \<open>\<^verbatim>\<open>AgentState.copy\<close>: a new object with the same field values.\<close>

definition AgentState_copy :: "AgentState \<Rightarrow> AgentState" where
  "AgentState_copy a =
     \<lparr> start = start a, configuration = configuration a, isPacman = isPacman a,
       scaredTimer = scaredTimer a, numCarrying = numCarrying a, numReturned = numReturned a \<rparr>"

text \<open>\<^verbatim>\<open>Actions._directions\<close>, in the insertion order that \<^verbatim>\<open>items()\<close> iterates in.\<close>

definition directionsAsList :: "(direction \<times> (int \<times> int)) list" where
  "directionsAsList =
     [(North, (0, 1)), (South, (0, -1)), (East, (1, 0)), (West, (-1, 0)), (Stop, (0, 0))]"

fun directions :: "direction \<Rightarrow> int \<times> int" where
  "directions North = (0, 1)"
| "directions South = (0, -1)"
| "directions East = (1, 0)"
| "directions West = (-1, 0)"
| "directions Stop = (0, 0)"

definition TOLERANCE :: rat where
  "TOLERANCE = 1 / 1000"

fun reverseDirection :: "direction \<Rightarrow> direction" where
  "reverseDirection North = South"
| "reverseDirection South = North"
| "reverseDirection East = West"
| "reverseDirection West = East"
| "reverseDirection action = action"

fun vectorToDirection :: "rat \<times> rat \<Rightarrow> direction" where
  "vectorToDirection (dx, dy) =
     (if dy > 0 then North
      else if dy < 0 then South
      else if dx < 0 then West
      else if dx > 0 then East
      else Stop)"

definition directionToVector :: "direction \<Rightarrow> rat \<Rightarrow> rat \<times> rat" where
  "directionToVector d speed = (case directions d of (dx, dy) \<Rightarrow> (of_int dx * speed, of_int dy * speed))"

text \<open>\<^verbatim>\<open>Configuration.generateSuccessor\<close>: a new configuration; a zero vector keeps the facing.\<close>

definition Configuration_generateSuccessor :: "Configuration \<Rightarrow> rat \<times> rat \<Rightarrow> Configuration" where
  "Configuration_generateSuccessor c vector =
     (case pos c of (x, y) \<Rightarrow> case vector of (dx, dy) \<Rightarrow>
        let d = vectorToDirection vector;
            d' = (if d = Stop then direction c else d)
        in \<lparr> pos = (x + dx, y + dy), direction = d' \<rparr>)"

text \<open>Python's \<^verbatim>\<open>int(r)\<close> on a number: truncation towards zero.\<close>

definition py_int :: "rat \<Rightarrow> int" where
  "py_int r = (if 0 \<le> r then \<lfloor>r\<rfloor> else \<lceil>r\<rceil>)"

text \<open>
  Modelled from the spec: \<^verbatim>\<open>util.nearestPoint\<close> and \<^verbatim>\<open>util.manhattanDistance\<close> are
  imported from \<^verbatim>\<open>util.py\<close>, which is not among the sources. The spec calls the first
  "the nearest grid-aligned point" and "rounded position"; it is taken to round each
  coordinate as \<^verbatim>\<open>getPossibleActions\<close> does in place, \<^verbatim>\<open>int(x + 0.5)\<close>. The second is
  the Manhattan distance of two positions.
\<close>

definition nearestPoint :: "position \<Rightarrow> int \<times> int" where
  "nearestPoint p = (case p of (x, y) \<Rightarrow> (py_int (x + 1 / 2), py_int (y + 1 / 2)))"

definition manhattanDistance :: "position \<Rightarrow> position \<Rightarrow> rat" where
  "manhattanDistance p q = (case p of (x1, y1) \<Rightarrow> case q of (x2, y2) \<Rightarrow> \<bar>x1 - x2\<bar> + \<bar>y1 - y2\<bar>)"

definition point :: "int \<times> int \<Rightarrow> position" where
  "point p = (case p of (x, y) \<Rightarrow> (of_int x, of_int y))"

text \<open>
  \<^verbatim>\<open>Actions.getPossibleActions\<close>: off the grid the only action is the current facing;
  on the grid, the directions (in the order of \<open>directionsAsList\<close>) whose target cell
  is not a wall. The wall lookup is a Python list lookup and can raise.
\<close>

fun possible_loop :: "Grid \<Rightarrow> int \<Rightarrow> int \<Rightarrow> (direction \<times> (int \<times> int)) list \<Rightarrow> error + direction list" where
  "possible_loop wallgrid x_int y_int [] = Inr []"
| "possible_loop wallgrid x_int y_int ((dir, (dx, dy)) # rest) =
     bindE (Grid_get wallgrid (x_int + dx) (y_int + dy)) (\<lambda>w.
     bindE (possible_loop wallgrid x_int y_int rest) (\<lambda>possible.
     Inr (if \<not> w then dir # possible else possible)))"

definition getPossibleActions :: "Configuration \<Rightarrow> Grid \<Rightarrow> error + direction list" where
  "getPossibleActions config wallgrid =
     (case pos config of (x, y) \<Rightarrow>
        let x_int = py_int (x + 1 / 2); y_int = py_int (y + 1 / 2) in
        if \<bar>x - of_int x_int\<bar> + \<bar>y - of_int y_int\<bar> > TOLERANCE
        then Inr [direction config]
        else possible_loop wallgrid x_int y_int directionsAsList)"

section \<open>Game state (game.py, pacman.py)\<close>

text \<open>
  A \<^verbatim>\<open>GameStateData\<close> snapshot. \<^verbatim>\<open>GameState\<close> only wraps one in its field \<^verbatim>\<open>data\<close>, so
  the model works on the snapshot itself. Of the layout only the wall grid is used.

  \<^verbatim>\<open>GameStateData.__init__\<close> copies the capsule list (\<^verbatim>\<open>[:]\<close>) and every agent state
  (\<^verbatim>\<open>copy()\<close>), and \<^verbatim>\<open>consume\<close> copies the food grid before clearing a cell; a ghost's
  configuration is replaced by a new object in \<^verbatim>\<open>applyAction\<close> before \<^verbatim>\<open>decrementTimer\<close>
  writes its position. These fields are therefore values of the record. The list \<^verbatim>\<open>_eaten\<close>
  is different: \<^verbatim>\<open>self._eaten = prevState._eaten\<close> shares one list object between a
  snapshot and its successor, and \<^verbatim>\<open>collide\<close> writes into it. The field \<open>eaten\<close>
  is therefore the address of a list in a store.
\<close>

record store =
  cells :: "nat \<Rightarrow> bool list"
  fresh :: nat

definition store_alloc :: "store \<Rightarrow> bool list \<Rightarrow> nat \<times> store" where
  "store_alloc h v = (fresh h, \<lparr> cells = (cells h)(fresh h := v), fresh = Suc (fresh h) \<rparr>)"

record GameStateData =
  food :: Grid
  capsules :: "(int \<times> int) list"
  agentStates :: "AgentState list"
  walls :: Grid
  eaten :: nat
  score :: int
  foodEaten :: "(int \<times> int) option"
  foodAdded :: "(int \<times> int) option"
  capsuleEaten :: "(int \<times> int) option"
  agentMoved :: "int option"
  lose :: bool
  win :: bool
  scoreChange :: int

definition SCARED_TIME :: int where
  "SCARED_TIME = 40"

definition COLLISION_TOLERANCE :: rat where
  "COLLISION_TOLERANCE = 7 / 10"

definition TIME_PENALTY :: int where
  "TIME_PENALTY = 1"

definition PACMAN_SPEED :: rat where
  "PACMAN_SPEED = 1"

definition GHOST_SPEED :: rat where
  "GHOST_SPEED = 1"

text \<open>\<^verbatim>\<open>Grid.copy\<close> and \<^verbatim>\<open>Grid.shallowCopy\<close>: a new grid object with the same cells.\<close>

definition Grid_copy :: "Grid \<Rightarrow> Grid" where
  "Grid_copy g = (Grid_init (width g) (height g) False)\<lparr> data := map (\<lambda>col. col) (data g) \<rparr>"

definition Grid_shallowCopy :: "Grid \<Rightarrow> Grid" where
  "Grid_shallowCopy g = (Grid_init (width g) (height g) False)\<lparr> data := data g \<rparr>"

text \<open>
  \<^verbatim>\<open>GameStateData(prevState)\<close>, as \<^verbatim>\<open>GameState(prevState)\<close> calls it: the content is
  taken over, the annotations of the step are reset.
\<close>

definition GameStateData_init :: "GameStateData \<Rightarrow> GameStateData" where
  "GameStateData_init prevState =
     \<lparr> food = Grid_shallowCopy (food prevState),
       capsules = capsules prevState,
       agentStates = map AgentState_copy (agentStates prevState),
       walls = walls prevState,
       eaten = eaten prevState,
       score = score prevState,
       foodEaten = None, foodAdded = None, capsuleEaten = None, agentMoved = None,
       lose = False, win = False, scoreChange = 0 \<rparr>"

definition getNumAgents :: "GameStateData \<Rightarrow> int" where
  "getNumAgents state = int (length (agentStates state))"

definition getNumFood :: "GameStateData \<Rightarrow> int" where
  "getNumFood state = Grid_count (food state) True"

text \<open>\<^verbatim>\<open>getGhostState\<close> refuses index 0 and indices from the agent count upwards.\<close>

definition getGhostState :: "GameStateData \<Rightarrow> int \<Rightarrow> error + AgentState" where
  "getGhostState state agentIndex =
     (if agentIndex = 0 \<or> agentIndex \<ge> getNumAgents state then Inl InvalidIndex
      else py_get (agentStates state) agentIndex)"

text \<open>\<^verbatim>\<open>getPacmanState\<close> is \<^verbatim>\<open>agentStates[0].copy()\<close>, \<^verbatim>\<open>getPacmanPosition\<close> its position.\<close>

definition getPacmanState :: "GameStateData \<Rightarrow> error + AgentState" where
  "getPacmanState state = bindE (py_get (agentStates state) 0) (\<lambda>a. Inr (AgentState_copy a))"

definition getPacmanPosition :: "GameStateData \<Rightarrow> error + position" where
  "getPacmanPosition state = bindE (py_get (agentStates state) 0) (\<lambda>a. Inr (pos (configuration a)))"

section \<open>Rules for Pacman (pacman.py)\<close>

definition PacmanRules_getLegalActions :: "GameStateData \<Rightarrow> error + direction list" where
  "PacmanRules_getLegalActions state =
     bindE (getPacmanState state) (\<lambda>p. getPossibleActions (configuration p) (walls state))"

text \<open>
  \<^verbatim>\<open>PacmanRules.consume\<close>. The loop over \<^verbatim>\<open>range(1, len(agentStates))\<close> sets the timer
  of every agent but the first.
\<close>

definition scare_ghosts :: "AgentState list \<Rightarrow> AgentState list" where
  "scare_ghosts as =
     (case as of [] \<Rightarrow> [] | p # gs \<Rightarrow> p # map (\<lambda>g. g\<lparr> scaredTimer := SCARED_TIME \<rparr>) gs)"

definition eat_food :: "int \<times> int \<Rightarrow> GameStateData \<Rightarrow> error + GameStateData" where
  "eat_food position state =
     (case position of (x, y) \<Rightarrow>
        bindE (Grid_get (food state) x y) (\<lambda>present.
          if present then
            bindE (Grid_set (Grid_copy (food state)) x y False) (\<lambda>food'.
              let state1 = state\<lparr> scoreChange := scoreChange state + 10, food := food',
                                  foodEaten := Some position \<rparr>;
                  numFood = getNumFood state1
              in if numFood = 0 \<and> \<not> lose state1
                 then Inr (state1\<lparr> scoreChange := scoreChange state1 + 500, win := True \<rparr>)
                 else Inr state1)
          else Inr state))"

definition eat_capsule :: "int \<times> int \<Rightarrow> GameStateData \<Rightarrow> GameStateData" where
  "eat_capsule position state =
     (if position \<in> set (capsules state)
      then state\<lparr> capsules := remove1 position (capsules state),
                  capsuleEaten := Some position,
                  agentStates := scare_ghosts (agentStates state) \<rparr>
      else state)"

definition consume :: "int \<times> int \<Rightarrow> GameStateData \<Rightarrow> error + GameStateData" where
  "consume position state =
     bindE (eat_food position state) (\<lambda>state1. Inr (eat_capsule position state1))"

definition PacmanRules_applyAction :: "GameStateData \<Rightarrow> direction \<Rightarrow> error + GameStateData" where
  "PacmanRules_applyAction state action =
     bindE (PacmanRules_getLegalActions state) (\<lambda>legal.
       if action \<notin> set legal then Inl IllegalAction
       else
         bindE (py_index (length (agentStates state)) 0) (\<lambda>k.
           let pacmanState = agentStates state ! k;
               vector = directionToVector action PACMAN_SPEED;
               pacmanState' = pacmanState\<lparr> configuration :=
                                Configuration_generateSuccessor (configuration pacmanState) vector \<rparr>;
               state1 = state\<lparr> agentStates := (agentStates state)[k := pacmanState'] \<rparr>;
               next = pos (configuration pacmanState');
               nearest = nearestPoint next
           in if manhattanDistance (point nearest) next \<le> 1 / 2
              then consume nearest state1
              else Inr state1))"

section \<open>Rules for ghosts (pacman.py)\<close>

definition GhostRules_getLegalActions :: "GameStateData \<Rightarrow> int \<Rightarrow> error + direction list" where
  "GhostRules_getLegalActions state ghostIndex =
     bindE (getGhostState state ghostIndex) (\<lambda>g.
       let conf = configuration g in
       bindE (getPossibleActions conf (walls state)) (\<lambda>possibleActions.
         let reverse = reverseDirection (direction conf);
             possible1 = (if Stop \<in> set possibleActions then remove1 Stop possibleActions
                          else possibleActions);
             possible2 = (if reverse \<in> set possible1 \<and> length possible1 > 1
                          then remove1 reverse possible1 else possible1)
         in Inr possible2))"

definition GhostRules_applyAction :: "GameStateData \<Rightarrow> direction \<Rightarrow> int \<Rightarrow> error + GameStateData" where
  "GhostRules_applyAction state action ghostIndex =
     bindE (GhostRules_getLegalActions state ghostIndex) (\<lambda>legal.
       if action \<notin> set legal then Inl IllegalAction
       else
         bindE (py_index (length (agentStates state)) ghostIndex) (\<lambda>k.
           let ghostState = agentStates state ! k;
               speed = (if scaredTimer ghostState > 0 then GHOST_SPEED / 2 else GHOST_SPEED);
               vector = directionToVector action speed;
               ghostState' = ghostState\<lparr> configuration :=
                               Configuration_generateSuccessor (configuration ghostState) vector \<rparr>
           in Inr (state\<lparr> agentStates := (agentStates state)[k := ghostState'] \<rparr>)))"

definition decrementTimer :: "AgentState \<Rightarrow> AgentState" where
  "decrementTimer ghostState =
     (let timer = scaredTimer ghostState;
          ghostState1 =
            (if timer = 1
             then ghostState\<lparr> configuration :=
                    (configuration ghostState)\<lparr> pos := point (nearestPoint (pos (configuration ghostState))) \<rparr> \<rparr>
             else ghostState)
      in ghostState1\<lparr> scaredTimer := max 0 (timer - 1) \<rparr>)"

definition canKill :: "position \<Rightarrow> position \<Rightarrow> bool" where
  "canKill pacmanPosition ghostPosition =
     (manhattanDistance ghostPosition pacmanPosition \<le> COLLISION_TOLERANCE)"

definition placeGhost :: "AgentState \<Rightarrow> AgentState" where
  "placeGhost ghostState = ghostState\<lparr> configuration := start ghostState \<rparr>"

text \<open>
  \<^verbatim>\<open>GhostRules.collide(state, ghostState, agentIndex)\<close>. The object \<^verbatim>\<open>ghostState\<close> is the
  entry \<open>k\<close> of the agent list; \<open>agentIndex\<close> is used only to index \<^verbatim>\<open>_eaten\<close>,
  the list at address \<open>eaten state\<close> of the store.
\<close>

definition collide :: "store \<Rightarrow> GameStateData \<Rightarrow> nat \<Rightarrow> int \<Rightarrow> error + (store \<times> GameStateData)" where
  "collide h state k agentIndex =
     (let ghostState = agentStates state ! k in
      if scaredTimer ghostState > 0 then
        let ghostState' = (placeGhost ghostState)\<lparr> scaredTimer := 0 \<rparr>;
            state' = state\<lparr> scoreChange := scoreChange state + 200,
                             agentStates := (agentStates state)[k := ghostState'] \<rparr>
        in bindE (py_set (cells h (eaten state)) agentIndex True) (\<lambda>l.
             Inr (h\<lparr> cells := (cells h)(eaten state := l) \<rparr>, state'))
      else if \<not> win state
        then Inr (h, state\<lparr> scoreChange := scoreChange state - 500, lose := True \<rparr>)
        else Inr (h, state))"

text \<open>
  \<^verbatim>\<open>GhostRules.checkDeath\<close>. After Pacman's move the loop visits the indices
  \<^verbatim>\<open>range(1, len(agentStates))\<close>, with Pacman's position read once before the loop;
  after a ghost's move only that ghost is checked.
\<close>

fun checkDeath_loop :: "store \<Rightarrow> GameStateData \<Rightarrow> position \<Rightarrow> nat list \<Rightarrow> error + (store \<times> GameStateData)" where
  "checkDeath_loop h state pacmanPosition [] = Inr (h, state)"
| "checkDeath_loop h state pacmanPosition (index # rest) =
     (let ghostState = agentStates state ! index;
          ghostPosition = pos (configuration ghostState)
      in if canKill pacmanPosition ghostPosition
         then bindE (collide h state index (int index)) (\<lambda>(h', state').
                checkDeath_loop h' state' pacmanPosition rest)
         else checkDeath_loop h state pacmanPosition rest)"

definition checkDeath :: "store \<Rightarrow> GameStateData \<Rightarrow> int \<Rightarrow> error + (store \<times> GameStateData)" where
  "checkDeath h state agentIndex =
     bindE (getPacmanPosition state) (\<lambda>pacmanPosition.
       if agentIndex = 0
       then checkDeath_loop h state pacmanPosition [1 ..< length (agentStates state)]
       else
         bindE (py_index (length (agentStates state)) agentIndex) (\<lambda>k.
           let ghostState = agentStates state ! k;
               ghostPosition = pos (configuration ghostState)
           in if canKill pacmanPosition ghostPosition
              then collide h state k agentIndex
              else Inr (h, state)))"

section \<open>The transition function (pacman.py)\<close>

definition isWin :: "GameStateData \<Rightarrow> bool" where
  "isWin state = win state"

definition isLose :: "GameStateData \<Rightarrow> bool" where
  "isLose state = lose state"

definition getLegalActions :: "GameStateData \<Rightarrow> int \<Rightarrow> error + direction list" where
  "getLegalActions state agentIndex =
     (if isWin state \<or> isLose state then Inr []
      else if agentIndex = 0 then PacmanRules_getLegalActions state
      else GhostRules_getLegalActions state agentIndex)"

text \<open>
  \<^verbatim>\<open>GameState.generateSuccessor\<close>. The three phases after the copy are kept apart:
  the mover's rule, the passing of time, and the collision check. The class-level set
  \<^verbatim>\<open>explored\<close>, to which both snapshots are added at the end, is no part of a snapshot
  and is left out.
\<close>

definition move_phase :: "store \<Rightarrow> GameStateData \<Rightarrow> int \<Rightarrow> direction \<Rightarrow> error + (store \<times> GameStateData)" where
  "move_phase h state agentIndex action =
     (if agentIndex = 0 then
        (case store_alloc h (replicate (nat (getNumAgents state)) False) of (a, h') \<Rightarrow>
           bindE (PacmanRules_applyAction (state\<lparr> eaten := a \<rparr>) action) (\<lambda>state'. Inr (h', state')))
      else bindE (GhostRules_applyAction state action agentIndex) (\<lambda>state'. Inr (h, state')))"

definition time_phase :: "GameStateData \<Rightarrow> int \<Rightarrow> error + GameStateData" where
  "time_phase state agentIndex =
     (if agentIndex = 0 then Inr (state\<lparr> scoreChange := scoreChange state + (- TIME_PENALTY) \<rparr>)
      else bindE (py_index (length (agentStates state)) agentIndex) (\<lambda>k.
             Inr (state\<lparr> agentStates := (agentStates state)[k := decrementTimer (agentStates state ! k)] \<rparr>)))"

definition generateSuccessor :: "store \<Rightarrow> GameStateData \<Rightarrow> int \<Rightarrow> direction \<Rightarrow> error + (store \<times> GameStateData)" where
  "generateSuccessor h self agentIndex action =
     (if isWin self \<or> isLose self then Inl TerminalState
      else
        let state = GameStateData_init self in
        bindE (move_phase h state agentIndex action) (\<lambda>(h1, state1).
        bindE (time_phase state1 agentIndex) (\<lambda>state2.
        bindE (checkDeath h1 state2 agentIndex) (\<lambda>(h3, state3).
        Inr (h3, state3\<lparr> agentMoved := Some agentIndex,
                          score := score state3 + scoreChange state3 \<rparr>)))))"

section \<open>Vocabulary of the properties\<close>

text \<open>
  The first step of \<open>PacmanRules_applyAction\<close> and of \<open>GhostRules_applyAction\<close>:
  the mover's configuration replaced by its successor.
\<close>

definition pacman_moved :: "GameStateData \<Rightarrow> direction \<Rightarrow> GameStateData" where
  "pacman_moved st a =
     st\<lparr> agentStates := (agentStates st)
       [0 := (agentStates st ! 0)\<lparr> configuration :=
          Configuration_generateSuccessor (configuration (agentStates st ! 0))
            (directionToVector a PACMAN_SPEED) \<rparr>] \<rparr>"

definition ghost_moved :: "AgentState \<Rightarrow> direction \<Rightarrow> AgentState" where
  "ghost_moved g a =
     g\<lparr> configuration := Configuration_generateSuccessor (configuration g)
          (directionToVector a (if scaredTimer g > 0 then GHOST_SPEED / 2 else GHOST_SPEED)) \<rparr>"

text \<open>
  The snapshot in which collisions are resolved: the copy of the predecessor after the
  mover's rule and the passing of time, as \<open>generateSuccessor\<close> hands it to
  \<open>checkDeath\<close>.
\<close>

definition pre_collision :: "store \<Rightarrow> GameStateData \<Rightarrow> int \<Rightarrow> direction \<Rightarrow> error + (store \<times> GameStateData)" where
  "pre_collision h self agentIndex action =
     bindE (move_phase h (GameStateData_init self) agentIndex action) (\<lambda>(h1, state1).
     bindE (time_phase state1 agentIndex) (\<lambda>state2. Inr (h1, state2)))"

text \<open>
  The entries of the agent list that \<open>checkDeath\<close> examines: all but the first after
  Pacman's move, the mover's own after a ghost's move.
\<close>

definition checked :: "GameStateData \<Rightarrow> int \<Rightarrow> nat list" where
  "checked state agentIndex =
     (if agentIndex = 0 then [1 ..< length (agentStates state)]
      else case py_index (length (agentStates state)) agentIndex of
             Inr k \<Rightarrow> [k] | Inl _ \<Rightarrow> [])"

text \<open>
  What one collision check contributes to \<open>scoreChange\<close>, and what \<open>collide\<close> makes
  of the snapshot; both read off \<open>collide\<close> and \<open>canKill\<close>.
\<close>

definition collision_payoff :: "GameStateData \<Rightarrow> position \<Rightarrow> nat \<Rightarrow> int" where
  "collision_payoff state pacmanPosition k =
     (let ghostState = agentStates state ! k in
      if canKill pacmanPosition (pos (configuration ghostState))
      then (if scaredTimer ghostState > 0 then 200 else if \<not> win state then - 500 else 0)
      else 0)"

definition collision_result :: "GameStateData \<Rightarrow> nat \<Rightarrow> GameStateData" where
  "collision_result state k =
     (let ghostState = agentStates state ! k in
      if scaredTimer ghostState > 0
      then state\<lparr> scoreChange := scoreChange state + 200,
                  agentStates := (agentStates state)
                    [k := ghostState\<lparr> configuration := start ghostState, scaredTimer := 0 \<rparr>] \<rparr>
      else if \<not> win state then state\<lparr> scoreChange := scoreChange state - 500, lose := True \<rparr>
      else state)"

text \<open>
  The snapshot after the checks of the entries \<open>ks\<close> in turn, the store left aside.
\<close>

fun resolve :: "GameStateData \<Rightarrow> position \<Rightarrow> nat list \<Rightarrow> GameStateData" where
  "resolve state pacmanPosition [] = state"
| "resolve state pacmanPosition (k # ks) =
     resolve (if canKill pacmanPosition (pos (configuration (agentStates state ! k)))
              then collision_result state k else state) pacmanPosition ks"

text \<open>
  What \<open>consume\<close> adds to \<open>scoreChange\<close>, read off the successor: 10 for a food
  cell, and 500 more when it was the last one.
\<close>

definition food_reward :: "GameStateData \<Rightarrow> int" where
  "food_reward state =
     (case foodEaten state of None \<Rightarrow> 0 | Some _ \<Rightarrow> if win state then 10 + 500 else 10)"

text \<open>
  A configuration is on the grid when \<open>getPossibleActions\<close> does not take its first
  exit; a neighbouring cell is open when the wall lookup that \<open>getPossibleActions\<close>
  makes for the direction returns \<^verbatim>\<open>False\<close>.
\<close>

definition on_grid :: "Configuration \<Rightarrow> bool" where
  "on_grid c = (\<not> manhattanDistance (pos c) (point (nearestPoint (pos c))) > TOLERANCE)"

definition neighbor_open :: "Grid \<Rightarrow> Configuration \<Rightarrow> direction \<Rightarrow> bool" where
  "neighbor_open wallgrid c d =
     (case nearestPoint (pos c) of (x, y) \<Rightarrow> case directions d of (dx, dy) \<Rightarrow>
        Grid_get wallgrid (x + dx) (y + dy) = Inr False)"


section \<open>Example snapshots\<close>

text \<open>
  A corridor of three open cells \<open>(1,1)\<close>, \<open>(2,1)\<close>, \<open>(3,1)\<close> in a wall frame of
  width 5 and height 3.
\<close>

definition corridor :: Grid where
  "corridor = \<lparr> width = 5, height = 3, data =
     [[True, True, True], [True, False, True], [True, False, True], [True, False, True],
      [True, True, True]] \<rparr>"

definition food_at_2_1 :: Grid where
  "food_at_2_1 = \<lparr> width = 5, height = 3, data =
     [[False, False, False], [False, False, False], [False, True, False], [False, False, False],
      [False, False, False]] \<rparr>"

definition food_at_2_1_and_3_1 :: Grid where
  "food_at_2_1_and_3_1 = \<lparr> width = 5, height = 3, data =
     [[False, False, False], [False, False, False], [False, True, False], [False, True, False],
      [False, False, False]] \<rparr>"

definition agent_at :: "position \<Rightarrow> direction \<Rightarrow> bool \<Rightarrow> int \<Rightarrow> AgentState" where
  "agent_at p d pac timer =
     \<lparr> start = \<lparr> pos = p, direction = Stop \<rparr>, configuration = \<lparr> pos = p, direction = d \<rparr>,
       isPacman = pac, scaredTimer = timer, numCarrying = 0, numReturned = 0 \<rparr>"

definition snapshot :: "Grid \<Rightarrow> AgentState list \<Rightarrow> int \<Rightarrow> GameStateData" where
  "snapshot fd agents sc =
     \<lparr> food = fd, capsules = [], agentStates = agents, walls = corridor, eaten = 0, score = sc,
       foodEaten = None, foodAdded = None, capsuleEaten = None, agentMoved = None,
       lose = False, win = False, scoreChange = 0 \<rparr>"

text \<open>A store whose address 0 holds the \<^verbatim>\<open>_eaten\<close> list of a two-agent snapshot.\<close>

definition store0 :: store where
  "store0 = \<lparr> cells = (\<lambda>_. [False, False]), fresh = 1 \<rparr>"

text \<open>Scenario 1 of the specification: \<^verbatim>\<open>Grid(3,2)\<close> with the cells \<open>(0,0)\<close> and \<open>(2,1)\<close> set.\<close>

definition grid_3x2 :: Grid where
  "grid_3x2 = \<lparr> width = 3, height = 2, data = [[True, False], [False, False], [False, True]] \<rparr>"

text \<open>Pacman at \<open>(1,1)\<close>, one ghost at \<open>(3,1)\<close>, the last food cell at \<open>(2,1)\<close>, score 0.\<close>

definition last_food :: GameStateData where
  "last_food = snapshot food_at_2_1 [agent_at (1, 1) Stop True 0, agent_at (3, 1) Stop False 0] 0"

text \<open>
  The same corridor with food left at \<open>(3,1)\<close> only. In \<open>quiet\<close> the ghost stands
  on \<open>(3,1)\<close>, two cells from Pacman; in \<open>caught\<close> a ghost that is not scared stands
  next to Pacman and the score is 100; in \<open>scared_neighbour\<close> the ghost next to Pacman
  is scared for five more moves.
\<close>

definition food_at_3_1 :: Grid where
  "food_at_3_1 = \<lparr> width = 5, height = 3, data =
     [[False, False, False], [False, False, False], [False, False, False], [False, True, False],
      [False, False, False]] \<rparr>"

definition quiet :: GameStateData where
  "quiet = snapshot food_at_3_1 [agent_at (1, 1) Stop True 0, agent_at (3, 1) Stop False 0] 0"

definition caught :: GameStateData where
  "caught = snapshot food_at_3_1 [agent_at (1, 1) Stop True 0, agent_at (2, 1) Stop False 0] 100"

definition scared_neighbour :: GameStateData where
  "scared_neighbour =
     snapshot food_at_3_1 [agent_at (1, 1) Stop True 0, agent_at (2, 1) Stop False 5] 0"

text \<open>The ghost of \<open>quiet\<close>, scared for one last move.\<close>

definition last_scared_move :: GameStateData where
  "last_scared_move =
     snapshot food_at_3_1 [agent_at (1, 1) Stop True 0, agent_at (3, 1) Stop False 1] 0"

text \<open>
  Three agents: a ghost that is not scared stands on Pacman's cell (where it was put back
  after being eaten), and a second ghost stands two cells away.
\<close>

definition overlooked :: GameStateData where
  "overlooked =
     snapshot food_at_3_1
       [agent_at (1, 1) Stop True 0, agent_at (1, 1) Stop False 0, agent_at (3, 1) Stop False 0] 100"

text \<open>
  Scenario 6 of the specification: a ghost facing North at the end of a blind alley,
  \<open>(1,2)\<close>, whose only open neighbour is \<open>(1,1)\<close> to the South.
\<close>

definition blind_alley :: Grid where
  "blind_alley = \<lparr> width = 3, height = 4, data =
     [[True, True, True, True], [True, False, False, True], [True, True, True, True]] \<rparr>"

definition dead_end :: GameStateData where
  "dead_end =
     (snapshot (Grid_init 3 4 False) [agent_at (1, 1) Stop True 0, agent_at (1, 2) North False 0] 0)
       \<lparr> walls := blind_alley \<rparr>"

text \<open>A snapshot that is already won.\<close>

definition won :: GameStateData where
  "won = last_food\<lparr> food := Grid_init 5 3 False, win := True, score := 509 \<rparr>"

section \<open>Basic facts\<close>

lemma bindE_Inr [simp]: "bindE (Inr x) f = f x"
  by (simp add: bindE_def)

lemma bindE_Inl [simp]: "bindE (Inl e) f = Inl e"
  by (simp add: bindE_def)

lemma bindE_eq_Inr: "bindE m f = Inr y \<longleftrightarrow> (\<exists>x. m = Inr x \<and> f x = Inr y)"
  by (cases m) simp_all

section \<open>The Grid serialisation\<close>

lemma py_range_nonpos [simp]: "n \<le> 0 \<Longrightarrow> py_range n = []"
  by (simp add: py_range_def)

lemma py_range_pos: "0 < n \<Longrightarrow> py_range n = 0 # map int [1 ..< nat n]"
  by (simp add: py_range_def upt_conv_Cons)

text \<open>
  The first cell already stops \<open>packBits\<close>: its column index is the float \<open>0 / height\<close>,
  and a list cannot be indexed by a float.
\<close>

lemma packBits_loop_first_cell:
  assumes "height g \<noteq> 0"
  shows "packBits_loop g (0 # is) bits c = Inl TypeError"
  using assms
  by (simp add: cellIndexToPosition_def py_truediv_def py_mod_def Grid_getitem_def
      py_getitem_def CELLS_PER_INT_def)

lemma packBits_nonempty:
  assumes "0 < height g * width g"
  shows "packBits g = Inl TypeError"
proof -
  from assms have h: "height g \<noteq> 0" by auto
  show ?thesis
    unfolding packBits_def py_range_pos [OF assms] packBits_loop_first_cell [OF h]
    by simp
qed



text \<open>
  C1. Round trip of the packed representation. On the grid of the specification's first
  scenario, \<^verbatim>\<open>Grid(3,2)\<close> with the cells \<open>(0,0)\<close> and \<open>(2,1)\<close> set, \<open>packBits\<close> raises
  TypeError, and so does packing followed by unpacking: no grid is returned that could
  equal the original. (By \<open>packBits_nonempty\<close> the same holds for every grid with at
  least one cell.)
\<close>

theorem pack_unpack_scenario_raises:
  "packBits grid_3x2 = Inl TypeError \<and> pack_unpack grid_3x2 = Inl TypeError"
  by (simp add: pack_unpack_def packBits_nonempty grid_3x2_def)




section \<open>Terminal snapshots\<close>

text \<open>
  C4. From a snapshot whose win or lose flag is set, \<open>generateSuccessor\<close> fails with the
  terminal-state error for every agent index and action, and \<open>getLegalActions\<close>
  returns the empty list for every agent index.
\<close>

theorem terminal_state_has_no_successor:
  assumes "win s \<or> lose s"
  shows "generateSuccessor h s agentIndex action = Inl TerminalState
     \<and> getLegalActions s agentIndex = Inr []"
  using assms by (simp add: generateSuccessor_def getLegalActions_def isWin_def isLose_def)

theorem terminal_state_has_no_successor_witness:
  "win won \<and> generateSuccessor store0 won 0 East = Inl TerminalState
     \<and> getLegalActions won 1 = Inr []"
  using terminal_state_has_no_successor [of won store0 0 East]
    terminal_state_has_no_successor [of won store0 1 East]
  by (simp add: won_def)

lemma Grid_copy_id [simp]: "Grid_copy g = g"
  by (simp add: Grid_copy_def Grid_init_def)

lemma Grid_shallowCopy_id [simp]: "Grid_shallowCopy g = g"
  by (simp add: Grid_shallowCopy_def Grid_init_def)

lemma AgentState_copy_id [simp]: "AgentState_copy a = a"
  by (simp add: AgentState_copy_def)

lemma map_AgentState_copy [simp]: "map AgentState_copy as = as"
  by (induction as) simp_all

lemma GameStateData_init_eq:
  "GameStateData_init s = s\<lparr> foodEaten := None, foodAdded := None, capsuleEaten := None,
     agentMoved := None, lose := False, win := False, scoreChange := 0 \<rparr>"
  by (simp add: GameStateData_init_def)

lemma py_index_Inr: "py_index n i = Inr k \<Longrightarrow> k < n"
  by (auto simp: py_index_def Let_def split: if_splits)

lemma py_index_nat [simp]: "k < n \<Longrightarrow> py_index n (int k) = Inr k"
  by (simp add: py_index_def)

lemma py_index_0: "py_index n 0 = Inr k \<longleftrightarrow> k = 0 \<and> 0 < n"
  by (auto simp: py_index_def)

subsection \<open>collide and checkDeath\<close>

lemma collide_Inr:
  assumes "collide h st k i = Inr (h', st')"
  shows "st' = collision_result st k"
  using assms
  by (auto simp: collide_def collision_result_def placeGhost_def Let_def bindE_eq_Inr split: if_splits)

lemma collision_result_frame [simp]:
  "food (collision_result st k) = food st"
  "capsules (collision_result st k) = capsules st"
  "walls (collision_result st k) = walls st"
  "eaten (collision_result st k) = eaten st"
  "score (collision_result st k) = score st"
  "win (collision_result st k) = win st"
  "foodEaten (collision_result st k) = foodEaten st"
  "capsuleEaten (collision_result st k) = capsuleEaten st"
  "length (agentStates (collision_result st k)) = length (agentStates st)"
  by (simp_all add: collision_result_def Let_def)

lemma collision_result_other:
  "j \<noteq> k \<Longrightarrow> agentStates (collision_result st k) ! j = agentStates st ! j"
  by (simp add: collision_result_def Let_def)

lemma collision_result_score:
  "canKill pac (pos (configuration (agentStates st ! k))) \<Longrightarrow>
   scoreChange (collision_result st k) = scoreChange st + collision_payoff st pac k"
  by (simp add: collision_result_def collision_payoff_def Let_def)

lemma collision_payoff_cong:
  "agentStates st' ! k = agentStates st ! k \<Longrightarrow> win st' = win st \<Longrightarrow>
   collision_payoff st' pac k = collision_payoff st pac k"
  by (simp add: collision_payoff_def)

lemma collision_payoff_no_kill:
  "\<not> canKill pac (pos (configuration (agentStates st ! k))) \<Longrightarrow> collision_payoff st pac k = 0"
  by (simp add: collision_payoff_def)

lemma checkDeath_loop_resolve:
  assumes "checkDeath_loop h st pac ks = Inr (h', st')"
  shows "st' = resolve st pac ks"
  using assms
proof (induction ks arbitrary: h st)
  case Nil
  then show ?case by simp
next
  case (Cons k ks)
  show ?case
  proof (cases "canKill pac (pos (configuration (agentStates st ! k)))")
    case True
    with Cons.prems obtain h1 st1 where c: "collide h st k (int k) = Inr (h1, st1)"
      and l: "checkDeath_loop h1 st1 pac ks = Inr (h', st')"
      by (auto simp: Let_def bindE_eq_Inr)
    from collide_Inr [OF c] Cons.IH [OF l] True show ?thesis by simp
  next
    case False
    with Cons.prems Cons.IH show ?thesis by (simp add: Let_def)
  qed
qed

lemma resolve_frame:
  "food (resolve st pac ks) = food st \<and> capsules (resolve st pac ks) = capsules st
     \<and> walls (resolve st pac ks) = walls st
     \<and> eaten (resolve st pac ks) = eaten st \<and> score (resolve st pac ks) = score st
     \<and> win (resolve st pac ks) = win st
     \<and> foodEaten (resolve st pac ks) = foodEaten st
     \<and> capsuleEaten (resolve st pac ks) = capsuleEaten st
     \<and> length (agentStates (resolve st pac ks)) = length (agentStates st)
     \<and> (\<forall>j. j \<notin> set ks \<longrightarrow> agentStates (resolve st pac ks) ! j = agentStates st ! j)"
proof (induction ks arbitrary: st)
  case Nil
  then show ?case by simp
next
  case (Cons k ks)
  show ?case
    using Cons.IH [of "if canKill pac (pos (configuration (agentStates st ! k))) then collision_result st k else st"]
    by (auto simp: collision_result_other split: if_splits)
qed

lemma resolve_score:
  assumes "distinct ks"
  shows "scoreChange (resolve st pac ks) = scoreChange st + sum_list (map (collision_payoff st pac) ks)"
  using assms
proof (induction ks arbitrary: st)
  case Nil
  then show ?case by simp
next
  case (Cons k ks)
  let ?st1 = "if canKill pac (pos (configuration (agentStates st ! k))) then collision_result st k else st"
  from Cons.IH [of ?st1] Cons.prems
  have "scoreChange (resolve ?st1 pac ks) = scoreChange ?st1 + sum_list (map (collision_payoff ?st1 pac) ks)"
    by simp
  moreover have "map (collision_payoff ?st1 pac) ks = map (collision_payoff st pac) ks"
  proof (rule map_cong [OF refl])
    fix j assume "j \<in> set ks"
    with Cons.prems have "j \<noteq> k" by auto
    then show "collision_payoff ?st1 pac j = collision_payoff st pac j"
      by (intro collision_payoff_cong) (simp_all add: collision_result_other)
  qed
  moreover have "scoreChange ?st1 = scoreChange st + collision_payoff st pac k"
    by (simp add: collision_result_score collision_payoff_no_kill)
  ultimately show ?case by simp
qed

lemma collision_result_lose: "lose st \<Longrightarrow> lose (collision_result st k)"
  by (simp add: collision_result_def Let_def)

lemma collision_result_deadly:
  "\<not> scaredTimer (agentStates st ! k) > 0 \<Longrightarrow> \<not> win st \<Longrightarrow> lose (collision_result st k)"
  by (simp add: collision_result_def Let_def)

lemma collision_result_same:
  "k < length (agentStates st) \<Longrightarrow>
   agentStates (collision_result st k) ! k =
     (let g = agentStates st ! k in
      if scaredTimer g > 0 then g\<lparr> configuration := start g, scaredTimer := 0 \<rparr> else g)"
  by (simp add: collision_result_def Let_def)

lemma resolve_lose: "lose st \<Longrightarrow> lose (resolve st pac ks)"
  by (induction ks arbitrary: st) (simp_all add: collision_result_lose)

lemma resolve_agent:
  assumes "distinct ks" and "k \<in> set ks"
    and "canKill pac (pos (configuration (agentStates st ! k)))"
    and "k < length (agentStates st)"
  shows "agentStates (resolve st pac ks) ! k = agentStates (collision_result st k) ! k
     \<and> (\<not> scaredTimer (agentStates st ! k) > 0 \<and> \<not> win st \<longrightarrow> lose (resolve st pac ks))"
  using assms
proof (induction ks arbitrary: st)
  case Nil
  then show ?case by simp
next
  case (Cons j ks)
  let ?st1 = "if canKill pac (pos (configuration (agentStates st ! j))) then collision_result st j else st"
  show ?case
  proof (cases "k = j")
    case True
    with Cons.prems(1) have "k \<notin> set ks" by simp
    with resolve_frame [of ?st1 pac ks]
    have "agentStates (resolve ?st1 pac ks) ! k = agentStates ?st1 ! k"
      by blast
    moreover have "\<not> scaredTimer (agentStates st ! k) > 0 \<and> \<not> win st \<longrightarrow> lose ?st1"
      using True Cons.prems(3) by (simp add: collision_result_deadly)
    ultimately show ?thesis
      using True Cons.prems(3) resolve_lose [of ?st1 pac ks] by auto
  next
    case False
    with Cons.prems have k: "k \<in> set ks" and d: "distinct ks" by auto
    have same: "agentStates ?st1 ! k = agentStates st ! k" "win ?st1 = win st"
      "k < length (agentStates ?st1)"
      using False Cons.prems(4) by (simp_all add: collision_result_other)
    have "agentStates (collision_result ?st1 k) ! k = agentStates (collision_result st k) ! k"
      using same Cons.prems(4) by (simp add: collision_result_same)
    with Cons.IH [OF d k, of ?st1] Cons.prems(3) same show ?thesis
      by simp
  qed
qed

lemma resolve_no_kill:
  assumes "\<forall>k \<in> set ks. \<not> canKill pac (pos (configuration (agentStates st ! k)))"
  shows "resolve st pac ks = st"
  using assms by (induction ks arbitrary: st) simp_all

subsection \<open>checkDeath\<close>

lemma getPacmanPosition_Inr:
  "getPacmanPosition st = Inr pac \<longleftrightarrow> agentStates st \<noteq> [] \<and> pac = pos (configuration (agentStates st ! 0))"
  by (auto simp: getPacmanPosition_def py_get_def py_index_def bindE_eq_Inr)

lemma checked_distinct: "distinct (checked st i)"
  by (simp add: checked_def split: sum.splits)

lemma checked_bound: "k \<in> set (checked st i) \<Longrightarrow> k < length (agentStates st)"
  by (auto simp: checked_def py_index_Inr split: sum.splits if_splits)

lemma checkDeath_Inr:
  assumes "checkDeath h st i = Inr (h', st')"
  shows "\<exists>pac. getPacmanPosition st = Inr pac \<and> st' = resolve st pac (checked st i)"
proof -
  from assms obtain pac where p: "getPacmanPosition st = Inr pac"
    by (auto simp: checkDeath_def bindE_eq_Inr)
  show ?thesis
  proof (cases "i = 0")
    case True
    with assms p show ?thesis
      by (auto simp: checkDeath_def checked_def dest: checkDeath_loop_resolve)
  next
    case False
    with assms p obtain k where k: "py_index (length (agentStates st)) i = Inr k"
      and c: "(if canKill pac (pos (configuration (agentStates st ! k)))
               then collide h st k i else Inr (h, st)) = Inr (h', st')"
      by (auto simp: checkDeath_def bindE_eq_Inr Let_def)
    from c have "st' = resolve st pac [k]"
      by (auto simp: collide_Inr split: if_splits)
    with p k False show ?thesis by (simp add: checked_def)
  qed
qed

subsection \<open>Pacman's move\<close>

lemma scare_ghosts_length [simp]: "length (scare_ghosts as) = length as"
  by (simp add: scare_ghosts_def split: list.splits)

lemma scare_ghosts_nth:
  "k < length as \<Longrightarrow>
   scare_ghosts as ! k = (if k = 0 then as ! k else (as ! k)\<lparr> scaredTimer := SCARED_TIME \<rparr>)"
  by (cases as; cases k) (simp_all add: scare_ghosts_def)

lemma eat_capsule_frame [simp]:
  "food (eat_capsule p st) = food st"
  "walls (eat_capsule p st) = walls st"
  "eaten (eat_capsule p st) = eaten st"
  "score (eat_capsule p st) = score st"
  "scoreChange (eat_capsule p st) = scoreChange st"
  "win (eat_capsule p st) = win st"
  "lose (eat_capsule p st) = lose st"
  "foodEaten (eat_capsule p st) = foodEaten st"
  "length (agentStates (eat_capsule p st)) = length (agentStates st)"
  by (simp_all add: eat_capsule_def)

lemma eat_capsule_agent:
  assumes "k < length (agentStates st)"
  shows "configuration (agentStates (eat_capsule p st) ! k) = configuration (agentStates st ! k)"
    and "start (agentStates (eat_capsule p st) ! k) = start (agentStates st ! k)"
    and "k = 0 \<Longrightarrow> agentStates (eat_capsule p st) ! k = agentStates st ! k"
  using assms by (simp_all add: eat_capsule_def scare_ghosts_nth)

lemma eat_food_Inr:
  assumes "eat_food (x, y) st = Inr st'"
  shows "(Grid_get (food st) x y = Inr False \<and> st' = st)
     \<or> (\<exists>g'. Grid_get (food st) x y = Inr True \<and> Grid_set (food st) x y False = Inr g'
           \<and> food st' = g' \<and> foodEaten st' = Some (x, y)
           \<and> scoreChange st' = scoreChange st + 10 + (if Grid_count g' True = 0 \<and> \<not> lose st then 500 else 0)
           \<and> win st' = (win st \<or> Grid_count g' True = 0 \<and> \<not> lose st)
           \<and> agentStates st' = agentStates st \<and> capsules st' = capsules st
           \<and> walls st' = walls st \<and> eaten st' = eaten st \<and> score st' = score st
           \<and> lose st' = lose st)"
proof -
  from assms obtain present where p: "Grid_get (food st) x y = Inr present"
    by (auto simp: eat_food_def bindE_eq_Inr)
  show ?thesis
  proof (cases present)
    case False
    with assms p show ?thesis by (simp add: eat_food_def)
  next
    case True
    with assms p obtain g' where g: "Grid_set (food st) x y False = Inr g'"
      by (auto simp: eat_food_def bindE_eq_Inr)
    define st1 where "st1 = st\<lparr> scoreChange := scoreChange st + 10, food := g', foodEaten := Some (x, y) \<rparr>"
    from assms p True g have
      "st' = (if Grid_count g' True = 0 \<and> \<not> lose st
              then st1\<lparr> scoreChange := scoreChange st1 + 500, win := True \<rparr> else st1)"
      by (auto simp: eat_food_def Let_def getNumFood_def st1_def split: if_splits)
    then have "food st' = g' \<and> foodEaten st' = Some (x, y)
           \<and> scoreChange st' = scoreChange st + 10 + (if Grid_count g' True = 0 \<and> \<not> lose st then 500 else 0)
           \<and> win st' = (win st \<or> Grid_count g' True = 0 \<and> \<not> lose st)
           \<and> agentStates st' = agentStates st \<and> capsules st' = capsules st
           \<and> walls st' = walls st \<and> eaten st' = eaten st \<and> score st' = score st
           \<and> lose st' = lose st"
      by (auto simp: st1_def)
    with p True g show ?thesis by simp
  qed
qed

lemma consume_Inr:
  assumes "consume (x, y) st = Inr st'"
  shows "walls st' = walls st \<and> eaten st' = eaten st \<and> score st' = score st \<and> lose st' = lose st
     \<and> length (agentStates st') = length (agentStates st)
     \<and> (\<forall>k < length (agentStates st).
           configuration (agentStates st' ! k) = configuration (agentStates st ! k)
         \<and> start (agentStates st' ! k) = start (agentStates st ! k))"
    and "(Grid_get (food st) x y = Inr False \<and> food st' = food st \<and> foodEaten st' = foodEaten st
           \<and> scoreChange st' = scoreChange st \<and> win st' = win st)
     \<or> (\<exists>g'. Grid_get (food st) x y = Inr True \<and> Grid_set (food st) x y False = Inr g'
           \<and> food st' = g' \<and> foodEaten st' = Some (x, y)
           \<and> scoreChange st' = scoreChange st + 10 + (if Grid_count g' True = 0 \<and> \<not> lose st then 500 else 0)
           \<and> win st' = (win st \<or> Grid_count g' True = 0 \<and> \<not> lose st))"
proof -
  from assms obtain st1 where e: "eat_food (x, y) st = Inr st1" and s: "st' = eat_capsule (x, y) st1"
    by (auto simp: consume_def bindE_eq_Inr)
  from eat_food_Inr [OF e] have fr: "agentStates st1 = agentStates st" "walls st1 = walls st"
    "eaten st1 = eaten st" "score st1 = score st" "lose st1 = lose st"
    by auto
  show "walls st' = walls st \<and> eaten st' = eaten st \<and> score st' = score st \<and> lose st' = lose st
     \<and> length (agentStates st') = length (agentStates st)
     \<and> (\<forall>k < length (agentStates st).
           configuration (agentStates st' ! k) = configuration (agentStates st ! k)
         \<and> start (agentStates st' ! k) = start (agentStates st ! k))"
    unfolding s using fr by (simp add: eat_capsule_agent)
  from eat_food_Inr [OF e]
  show "(Grid_get (food st) x y = Inr False \<and> food st' = food st \<and> foodEaten st' = foodEaten st
           \<and> scoreChange st' = scoreChange st \<and> win st' = win st)
     \<or> (\<exists>g'. Grid_get (food st) x y = Inr True \<and> Grid_set (food st) x y False = Inr g'
           \<and> food st' = g' \<and> foodEaten st' = Some (x, y)
           \<and> scoreChange st' = scoreChange st + 10 + (if Grid_count g' True = 0 \<and> \<not> lose st then 500 else 0)
           \<and> win st' = (win st \<or> Grid_count g' True = 0 \<and> \<not> lose st))"
    unfolding s by auto
qed

lemma PacmanRules_getLegalActions_Inr:
  "PacmanRules_getLegalActions st = Inr legal \<Longrightarrow> agentStates st \<noteq> []"
  by (auto simp: PacmanRules_getLegalActions_def getPacmanState_def py_get_def py_index_def bindE_eq_Inr)

lemma PacmanRules_applyAction_Inr:
  assumes "PacmanRules_applyAction st a = Inr st'"
  shows "agentStates st \<noteq> []"
    and "st' = pacman_moved st a
       \<or> consume (nearestPoint (pos (configuration (agentStates (pacman_moved st a) ! 0)))) (pacman_moved st a) = Inr st'"
proof -
  from assms obtain legal where l: "PacmanRules_getLegalActions st = Inr legal"
    by (auto simp: PacmanRules_applyAction_def bindE_eq_Inr)
  from PacmanRules_getLegalActions_Inr [OF l] show ne: "agentStates st \<noteq> []" .
  then have "py_index (length (agentStates st)) 0 = Inr 0"
    by (simp add: py_index_def)
  with assms l ne
  show "st' = pacman_moved st a
       \<or> consume (nearestPoint (pos (configuration (agentStates (pacman_moved st a) ! 0)))) (pacman_moved st a) = Inr st'"
    by (auto simp: PacmanRules_applyAction_def pacman_moved_def Let_def split: if_splits)
qed

lemma GhostRules_applyAction_Inr:
  assumes "GhostRules_applyAction st a i = Inr st'"
  shows "\<exists>k. py_index (length (agentStates st)) i = Inr k
     \<and> st' = st\<lparr> agentStates := (agentStates st)[k := ghost_moved (agentStates st ! k) a] \<rparr>"
  using assms
  by (auto simp: GhostRules_applyAction_def ghost_moved_def bindE_eq_Inr Let_def split: if_splits)

lemma pre_collision_ghost:
  assumes "pre_collision h s i a = Inr (h1, m)" and "i \<noteq> 0"
  shows "\<exists>k. py_index (length (agentStates s)) i = Inr k \<and> h1 = h
     \<and> agentStates m = (agentStates s)[k := decrementTimer (ghost_moved (agentStates s ! k) a)]
     \<and> food m = food s \<and> capsules m = capsules s \<and> walls m = walls s \<and> eaten m = eaten s
     \<and> score m = score s \<and> scoreChange m = 0 \<and> \<not> win m \<and> \<not> lose m \<and> foodEaten m = None"
proof -
  from assms obtain st1 where g: "GhostRules_applyAction (GameStateData_init s) a i = Inr st1"
    and t: "time_phase st1 i = Inr m" and h: "h1 = h"
    by (auto simp: pre_collision_def move_phase_def bindE_eq_Inr)
  from GhostRules_applyAction_Inr [OF g] obtain k where
    k: "py_index (length (agentStates s)) i = Inr k"
    and st1: "st1 = (GameStateData_init s)\<lparr> agentStates := (agentStates s)[k := ghost_moved (agentStates s ! k) a] \<rparr>"
    by (auto simp: GameStateData_init_eq)
  from py_index_Inr [OF k] have kl: "k < length (agentStates s)" .
  from t assms(2) k kl have
    "m = st1\<lparr> agentStates := (agentStates st1)[k := decrementTimer (agentStates st1 ! k)] \<rparr>"
    by (auto simp: time_phase_def st1 bindE_eq_Inr)
  with kl have "agentStates m = (agentStates s)[k := decrementTimer (ghost_moved (agentStates s ! k) a)]
     \<and> food m = food s \<and> capsules m = capsules s \<and> walls m = walls s \<and> eaten m = eaten s
     \<and> score m = score s \<and> scoreChange m = 0 \<and> \<not> win m \<and> \<not> lose m \<and> foodEaten m = None"
    by (simp add: st1 GameStateData_init_eq)
  with k h show ?thesis by blast
qed

lemma pacman_moved_frame [simp]:
  "food (pacman_moved st a) = food st"
  "walls (pacman_moved st a) = walls st"
  "eaten (pacman_moved st a) = eaten st"
  "score (pacman_moved st a) = score st"
  "scoreChange (pacman_moved st a) = scoreChange st"
  "win (pacman_moved st a) = win st"
  "lose (pacman_moved st a) = lose st"
  "foodEaten (pacman_moved st a) = foodEaten st"
  "length (agentStates (pacman_moved st a)) = length (agentStates st)"
  by (simp_all add: pacman_moved_def)

lemma pacman_moved_agent:
  "agentStates st \<noteq> [] \<Longrightarrow> configuration (agentStates (pacman_moved st a) ! 0) =
     Configuration_generateSuccessor (configuration (agentStates st ! 0)) (directionToVector a PACMAN_SPEED)"
  "0 < k \<Longrightarrow> agentStates (pacman_moved st a) ! k = agentStates st ! k"
  "agentStates st \<noteq> [] \<Longrightarrow> start (agentStates (pacman_moved st a) ! 0) = start (agentStates st ! 0)"
  by (simp_all add: pacman_moved_def)

lemma pre_collision_pacman:
  assumes "pre_collision h s 0 a = Inr (h1, m)"
  shows "agentStates s \<noteq> [] \<and> walls m = walls s \<and> score m = score s \<and> \<not> lose m
     \<and> length (agentStates m) = length (agentStates s)
     \<and> configuration (agentStates m ! 0) =
         Configuration_generateSuccessor (configuration (agentStates s ! 0)) (directionToVector a PACMAN_SPEED)
     \<and> (\<forall>k. 0 < k \<and> k < length (agentStates s) \<longrightarrow>
           configuration (agentStates m ! k) = configuration (agentStates s ! k)
         \<and> start (agentStates m ! k) = start (agentStates s ! k))"
    and "(foodEaten m = None \<and> food m = food s \<and> scoreChange m = - 1 \<and> \<not> win m)
     \<or> (\<exists>x y g'. foodEaten m = Some (x, y) \<and> Grid_get (food s) x y = Inr True
           \<and> Grid_set (food s) x y False = Inr g' \<and> food m = g'
           \<and> win m = (Grid_count g' True = 0)
           \<and> scoreChange m = 10 + (if Grid_count g' True = 0 then 500 else 0) - 1)"
proof -
  define st0 where "st0 = (GameStateData_init s)\<lparr> eaten := fresh h \<rparr>"
  from assms obtain st1 where p: "PacmanRules_applyAction st0 a = Inr st1"
    and m: "m = st1\<lparr> scoreChange := scoreChange st1 + (- TIME_PENALTY) \<rparr>"
    by (auto simp: pre_collision_def move_phase_def time_phase_def store_alloc_def st0_def bindE_eq_Inr)
  have st0: "agentStates st0 = agentStates s" "food st0 = food s" "walls st0 = walls s"
    "score st0 = score s" "scoreChange st0 = 0" "\<not> win st0" "\<not> lose st0" "foodEaten st0 = None"
    by (simp_all add: st0_def GameStateData_init_eq)
  from PacmanRules_applyAction_Inr [OF p] have ne: "agentStates s \<noteq> []"
    and c: "st1 = pacman_moved st0 a
       \<or> consume (nearestPoint (pos (configuration (agentStates (pacman_moved st0 a) ! 0)))) (pacman_moved st0 a) = Inr st1"
    by (simp_all add: st0)
  let ?pm = "pacman_moved st0 a"
  from c show "agentStates s \<noteq> [] \<and> walls m = walls s \<and> score m = score s \<and> \<not> lose m
     \<and> length (agentStates m) = length (agentStates s)
     \<and> configuration (agentStates m ! 0) =
         Configuration_generateSuccessor (configuration (agentStates s ! 0)) (directionToVector a PACMAN_SPEED)
     \<and> (\<forall>k. 0 < k \<and> k < length (agentStates s) \<longrightarrow>
           configuration (agentStates m ! k) = configuration (agentStates s ! k)
         \<and> start (agentStates m ! k) = start (agentStates s ! k))"
  proof
    assume "st1 = ?pm"
    with ne show ?thesis by (simp add: m st0 pacman_moved_agent)
  next
    assume "consume (nearestPoint (pos (configuration (agentStates ?pm ! 0)))) ?pm = Inr st1"
    then obtain x y where "consume (x, y) ?pm = Inr st1"
      by (cases "nearestPoint (pos (configuration (agentStates ?pm ! 0)))") simp
    from consume_Inr(1) [OF this] ne show ?thesis
      by (simp add: m st0 pacman_moved_agent)
  qed
  from c show "(foodEaten m = None \<and> food m = food s \<and> scoreChange m = - 1 \<and> \<not> win m)
     \<or> (\<exists>x y g'. foodEaten m = Some (x, y) \<and> Grid_get (food s) x y = Inr True
           \<and> Grid_set (food s) x y False = Inr g' \<and> food m = g'
           \<and> win m = (Grid_count g' True = 0)
           \<and> scoreChange m = 10 + (if Grid_count g' True = 0 then 500 else 0) - 1)"
  proof
    assume "st1 = ?pm"
    then show ?thesis by (simp add: m st0 TIME_PENALTY_def)
  next
    assume "consume (nearestPoint (pos (configuration (agentStates ?pm ! 0)))) ?pm = Inr st1"
    then obtain x y where "consume (x, y) ?pm = Inr st1"
      by (cases "nearestPoint (pos (configuration (agentStates ?pm ! 0)))") simp
    from consume_Inr(2) [OF this] show ?thesis
      by (auto simp: m st0 TIME_PENALTY_def)
  qed
qed

lemma generateSuccessor_Inr:
  assumes "generateSuccessor h s i a = Inr (h', s')"
  shows "\<not> win s \<and> \<not> lose s"
    and "\<exists>h1 m pac. pre_collision h s i a = Inr (h1, m) \<and> getPacmanPosition m = Inr pac
       \<and> s' = (resolve m pac (checked m i))\<lparr> agentMoved := Some i,
                 score := score m + scoreChange (resolve m pac (checked m i)) \<rparr>"
proof -
  from assms show t: "\<not> win s \<and> \<not> lose s"
    by (auto simp: generateSuccessor_def isWin_def isLose_def split: if_splits)
  with assms obtain h1 st1 st2 st3 where
    mv: "move_phase h (GameStateData_init s) i a = Inr (h1, st1)"
    and tm: "time_phase st1 i = Inr st2"
    and cd: "checkDeath h1 st2 i = Inr (h', st3)"
    and s': "s' = st3\<lparr> agentMoved := Some i, score := score st3 + scoreChange st3 \<rparr>"
    by (auto simp: generateSuccessor_def isWin_def isLose_def Let_def bindE_eq_Inr)
  from mv tm have pc: "pre_collision h s i a = Inr (h1, st2)"
    by (simp add: pre_collision_def)
  from checkDeath_Inr [OF cd] obtain pac where
    "getPacmanPosition st2 = Inr pac" "st3 = resolve st2 pac (checked st2 i)"
    by blast
  moreover from this resolve_frame [of st2 pac "checked st2 i"] have "score st3 = score st2"
    by simp
  ultimately
  show "\<exists>h1 m pac. pre_collision h s i a = Inr (h1, m) \<and> getPacmanPosition m = Inr pac
       \<and> s' = (resolve m pac (checked m i))\<lparr> agentMoved := Some i,
                 score := score m + scoreChange (resolve m pac (checked m i)) \<rparr>"
    using pc s' by (intro exI [of _ h1] exI [of _ st2] exI [of _ pac]) simp
qed

section \<open>Food only disappears\<close>

lemma py_get_Inr: "py_get xs i = Inr v \<longleftrightarrow> (\<exists>k. py_index (length xs) i = Inr k \<and> v = xs ! k)"
  by (auto simp: py_get_def bindE_eq_Inr)

lemma py_set_Inr: "py_set xs i v = Inr ys \<longleftrightarrow> (\<exists>k. py_index (length xs) i = Inr k \<and> ys = xs[k := v])"
  by (auto simp: py_set_def bindE_eq_Inr)

lemma Grid_get_Inr:
  "Grid_get g x y = Inr b \<longleftrightarrow>
     (\<exists>i j. py_index (length (data g)) x = Inr i \<and> py_index (length (data g ! i)) y = Inr j
        \<and> b = data g ! i ! j)"
  by (auto simp: Grid_get_def bindE_eq_Inr py_get_Inr)

lemma Grid_set_Inr:
  "Grid_set g x y v = Inr g' \<longleftrightarrow>
     (\<exists>i j. py_index (length (data g)) x = Inr i \<and> py_index (length (data g ! i)) y = Inr j
        \<and> g' = g\<lparr> data := (data g)[i := (data g ! i)[j := v]] \<rparr>)"
  by (auto simp: Grid_set_def bindE_eq_Inr py_set_Inr)

lemma count_column_clear:
  "j < length c \<Longrightarrow>
   length (filter (\<lambda>b. b) (c[j := False])) + (if c ! j then 1 else 0) = length (filter (\<lambda>b. b) c)"
proof (induction c arbitrary: j)
  case Nil
  then show ?case by simp
next
  case (Cons b c)
  show ?case
  proof (cases j)
    case 0
    then show ?thesis by simp
  next
    case (Suc n)
    with Cons.prems have "n < length c" by simp
    from Cons.IH [OF this] Suc show ?thesis by (simp split: if_splits)
  qed
qed

lemma sum_list_update_int:
  fixes f :: "'a \<Rightarrow> int"
  shows "i < length xs \<Longrightarrow> sum_list (map f (xs[i := v])) = sum_list (map f xs) - f (xs ! i) + f v"
proof (induction xs arbitrary: i)
  case Nil
  then show ?case by simp
next
  case (Cons x xs)
  then show ?case by (cases i) auto
qed

lemma Grid_count_clear:
  assumes "Grid_set g x y False = Inr g'" and "Grid_get g x y = Inr b"
  shows "Grid_count g' True = Grid_count g True - (if b then 1 else 0)"
proof -
  from assms(1) obtain i j where i: "py_index (length (data g)) x = Inr i"
    and j: "py_index (length (data g ! i)) y = Inr j"
    and g': "g' = g\<lparr> data := (data g)[i := (data g ! i)[j := False]] \<rparr>"
    by (auto simp: Grid_set_Inr)
  from assms(2) i j have b: "b = data g ! i ! j"
    by (auto simp: Grid_get_Inr)
  note il = py_index_Inr [OF i] and jl = py_index_Inr [OF j]
  from count_column_clear [OF jl]
  have "int (length (filter (\<lambda>b. b) ((data g ! i)[j := False]))) =
      int (length (filter (\<lambda>b. b) (data g ! i))) - (if b then 1 else 0)"
    by (simp add: b split: if_splits)
  with il show ?thesis
    by (simp add: Grid_count_def g' sum_list_update_int)
qed

lemma Grid_set_clear_pointwise:
  assumes "Grid_set g x y False = Inr g'" and "Grid_get g' u v = Inr True"
  shows "Grid_get g u v = Inr True"
proof -
  from assms(1) obtain i j where i: "py_index (length (data g)) x = Inr i"
    and j: "py_index (length (data g ! i)) y = Inr j"
    and g': "g' = g\<lparr> data := (data g)[i := (data g ! i)[j := False]] \<rparr>"
    by (auto simp: Grid_set_Inr)
  note il = py_index_Inr [OF i] and jl = py_index_Inr [OF j]
  from assms(2) obtain k l where k: "py_index (length (data g)) u = Inr k"
    and l: "py_index (length (data g' ! k)) v = Inr l" and t: "data g' ! k ! l"
    by (auto simp: Grid_get_Inr g')
  note kl = py_index_Inr [OF k]
  have len: "length (data g' ! k) = length (data g ! k)"
    using il kl by (cases "k = i") (simp_all add: g')
  from t il jl kl py_index_Inr [OF l] len have "data g ! k ! l"
    by (cases "k = i"; cases "l = j") (simp_all add: g')
  with k l len show ?thesis
    by (auto simp: Grid_get_Inr)
qed

lemma generateSuccessor_food:
  assumes "generateSuccessor h s i a = Inr (h', s')"
  shows "food s' = food s
     \<or> (\<exists>x y. Grid_get (food s) x y = Inr True \<and> Grid_set (food s) x y False = Inr (food s'))"
proof -
  from generateSuccessor_Inr(2) [OF assms] obtain h1 m pac where
    pc: "pre_collision h s i a = Inr (h1, m)"
    and s': "s' = (resolve m pac (checked m i))\<lparr> agentMoved := Some i,
                 score := score m + scoreChange (resolve m pac (checked m i)) \<rparr>"
    by blast
  from s' resolve_frame [of m pac "checked m i"] have f: "food s' = food m"
    by simp
  show ?thesis
  proof (cases "i = 0")
    case True
    with pc pre_collision_pacman(2) [of h s a h1 m] f show ?thesis
      by auto
  next
    case False
    with pre_collision_ghost [OF pc] f show ?thesis by auto
  qed
qed

text \<open>
  C7. Whenever \<open>generateSuccessor\<close> returns a successor (which it does only from a
  snapshot that is not terminal and for a legal action), the number of food cells of the
  successor is at most that of the predecessor, and every cell that holds food in the
  successor held food in the predecessor.
\<close>

theorem food_never_grows:
  assumes "generateSuccessor h s agentIndex action = Inr (h', s')"
  shows "Grid_count (food s') True \<le> Grid_count (food s) True
     \<and> (\<forall>x y. Grid_get (food s') x y = Inr True \<longrightarrow> Grid_get (food s) x y = Inr True)"
  using generateSuccessor_food [OF assms]
  by (auto simp: Grid_count_clear dest: Grid_set_clear_pointwise)

theorem food_never_grows_witness:
  "(case generateSuccessor store0 last_food 0 East of
      Inl e \<Rightarrow> False
    | Inr (h', s') \<Rightarrow> Grid_count (food s') True = 0 \<and> Grid_count (food last_food) True = 1
        \<and> Grid_count (food s') True \<le> Grid_count (food last_food) True)"
proof -
  have "isl (generateSuccessor store0 last_food 0 East) = False"
    by code_simp
  then obtain h' s' where e: "generateSuccessor store0 last_food 0 East = Inr (h', s')"
    by (cases "generateSuccessor store0 last_food 0 East") auto
  have "map_sum id (\<lambda>(h', s'). Grid_count (food s') True) (generateSuccessor store0 last_food 0 East) = Inr 0"
    by code_simp
  moreover have "Grid_count (food last_food) True = 1"
    by code_simp
  ultimately show ?thesis
    using food_never_grows [OF e] e by simp
qed

section \<open>Legal actions of a ghost\<close>

lemma possible_loop_Cons:
  "possible_loop wg x y ((d, (dx, dy)) # rest) = Inr acts \<longleftrightarrow>
     (\<exists>w ps. Grid_get wg (x + dx) (y + dy) = Inr w \<and> possible_loop wg x y rest = Inr ps
        \<and> acts = (if w then ps else d # ps))"
  by (auto simp: bindE_eq_Inr)

lemma getPossibleActions_on_grid:
  assumes "on_grid c" and "nearestPoint (pos c) = (x, y)"
  shows "getPossibleActions c wg = possible_loop wg x y directionsAsList"
proof -
  obtain px py where p: "pos c = (px, py)" by (cases "pos c")
  from assms(2) p have xy: "x = py_int (px + 1 / 2)" "y = py_int (py + 1 / 2)"
    by (simp_all add: nearestPoint_def)
  from assms(1) p have "\<not> \<bar>px - of_int x\<bar> + \<bar>py - of_int y\<bar> > TOLERANCE"
    by (simp add: on_grid_def manhattanDistance_def point_def nearestPoint_def xy)
  then show ?thesis
    by (simp add: getPossibleActions_def p xy Let_def)
qed

lemma possible_loop_directions:
  assumes "possible_loop wg x y directionsAsList = Inr acts"
  obtains wn ws we ww wst where
    "Grid_get wg x (y + 1) = Inr wn" "Grid_get wg x (y - 1) = Inr ws"
    "Grid_get wg (x + 1) y = Inr we" "Grid_get wg (x - 1) y = Inr ww"
    "Grid_get wg x y = Inr wst"
    "acts = (if wn then [] else [North]) @ (if ws then [] else [South])
          @ (if we then [] else [East]) @ (if ww then [] else [West])
          @ (if wst then [] else [Stop])"
proof -
  from assms obtain wn p1 where n: "Grid_get wg x (y + 1) = Inr wn"
    and r1: "possible_loop wg x y [(South, (0, -1)), (East, (1, 0)), (West, (-1, 0)), (Stop, (0, 0))] = Inr p1"
    and a1: "acts = (if wn then p1 else North # p1)"
    unfolding directionsAsList_def possible_loop_Cons by auto
  from r1 obtain ws p2 where s: "Grid_get wg x (y - 1) = Inr ws"
    and r2: "possible_loop wg x y [(East, (1, 0)), (West, (-1, 0)), (Stop, (0, 0))] = Inr p2"
    and a2: "p1 = (if ws then p2 else South # p2)"
    unfolding possible_loop_Cons by auto
  from r2 obtain we p3 where e: "Grid_get wg (x + 1) y = Inr we"
    and r3: "possible_loop wg x y [(West, (-1, 0)), (Stop, (0, 0))] = Inr p3"
    and a3: "p2 = (if we then p3 else East # p3)"
    unfolding possible_loop_Cons by auto
  from r3 obtain ww p4 where w: "Grid_get wg (x - 1) y = Inr ww"
    and r4: "possible_loop wg x y [(Stop, (0, 0))] = Inr p4"
    and a4: "p3 = (if ww then p4 else West # p4)"
    unfolding possible_loop_Cons by auto
  from r4 obtain wst where st: "Grid_get wg x y = Inr wst"
    and a5: "p4 = (if wst then [] else [Stop])"
    unfolding possible_loop_Cons by auto
  have "acts = (if wn then [] else [North]) @ (if ws then [] else [South])
          @ (if we then [] else [East]) @ (if ww then [] else [West])
          @ (if wst then [] else [Stop])"
    by (simp add: a1 a2 a3 a4 a5)
  with n s e w st that show ?thesis by blast
qed

lemma neighbor_open_cases:
  assumes "nearestPoint (pos c) = (x, y)"
  shows "neighbor_open wg c North = (Grid_get wg x (y + 1) = Inr False)"
    and "neighbor_open wg c South = (Grid_get wg x (y - 1) = Inr False)"
    and "neighbor_open wg c East = (Grid_get wg (x + 1) y = Inr False)"
    and "neighbor_open wg c West = (Grid_get wg (x - 1) y = Inr False)"
  using assms by (simp_all add: neighbor_open_def)

text \<open>
  C5. For a ghost on the grid, the legal actions never contain Stop, and they contain the
  reverse of its facing only if no other cardinal neighbour is open; where the reverse of
  the facing is the one open cardinal neighbour, the legal actions are exactly that
  direction.
\<close>

theorem ghost_never_stops_or_reverses:
  assumes "getGhostState s ghostIndex = Inr g" and "on_grid (configuration g)"
    and "GhostRules_getLegalActions s ghostIndex = Inr acts"
  shows "Stop \<notin> set acts
     \<and> (reverseDirection (direction (configuration g)) \<in> set acts \<longrightarrow>
          (\<forall>d \<in> {North, South, East, West}.
             neighbor_open (walls s) (configuration g) d \<longrightarrow>
             d = reverseDirection (direction (configuration g))))
     \<and> (reverseDirection (direction (configuration g)) \<in> {North, South, East, West}
          \<and> (\<forall>d \<in> {North, South, East, West}.
             neighbor_open (walls s) (configuration g) d =
             (d = reverseDirection (direction (configuration g)))) \<longrightarrow>
          acts = [reverseDirection (direction (configuration g))])"
proof -
  obtain x y where xy: "nearestPoint (pos (configuration g)) = (x, y)"
    by (cases "nearestPoint (pos (configuration g))")
  note no = neighbor_open_cases [OF xy, of "walls s"]
  from assms(1,3) obtain possible where
    p: "getPossibleActions (configuration g) (walls s) = Inr possible"
    and a: "acts =
      (let reverse = reverseDirection (direction (configuration g));
           possible1 = (if Stop \<in> set possible then remove1 Stop possible else possible)
       in if reverse \<in> set possible1 \<and> length possible1 > 1
          then remove1 reverse possible1 else possible1)"
    by (auto simp: GhostRules_getLegalActions_def bindE_eq_Inr Let_def)
  from p have "possible_loop (walls s) x y directionsAsList = Inr possible"
    by (simp add: getPossibleActions_on_grid [OF assms(2) xy])
  then obtain wn ws we ww wst where
    w: "Grid_get (walls s) x (y + 1) = Inr wn" "Grid_get (walls s) x (y - 1) = Inr ws"
      "Grid_get (walls s) (x + 1) y = Inr we" "Grid_get (walls s) (x - 1) y = Inr ww"
    and possible: "possible = (if wn then [] else [North]) @ (if ws then [] else [South])
             @ (if we then [] else [East]) @ (if ww then [] else [West])
             @ (if wst then [] else [Stop])"
    by (rule possible_loop_directions)
  have o: "neighbor_open (walls s) (configuration g) North = (\<not> wn)"
    "neighbor_open (walls s) (configuration g) South = (\<not> ws)"
    "neighbor_open (walls s) (configuration g) East = (\<not> we)"
    "neighbor_open (walls s) (configuration g) West = (\<not> ww)"
    by (simp_all add: no w)
  have b: "(\<forall>d \<in> {North, South, East, West}. P d) = (P North \<and> P South \<and> P East \<and> P West)"
    for P :: "direction \<Rightarrow> bool"
    by auto
  show ?thesis
    unfolding a possible b o Let_def
    by (cases "direction (configuration g)"; cases wn; cases ws; cases we; cases ww; cases wst)
      simp_all
qed

theorem ghost_never_stops_or_reverses_witness:
  "getGhostState dead_end 1 = Inr (agent_at (1, 2) North False 0)
     \<and> on_grid (configuration (agent_at (1, 2) North False 0))
     \<and> neighbor_open (walls dead_end) (configuration (agent_at (1, 2) North False 0)) South
     \<and> GhostRules_getLegalActions dead_end 1 = Inr [South]
     \<and> Stop \<notin> set [South]"
proof -
  have g: "getGhostState dead_end 1 = Inr (agent_at (1, 2) North False 0)"
    by code_simp
  have o: "on_grid (configuration (agent_at (1, 2) North False 0))"
    by code_simp
  have l: "GhostRules_getLegalActions dead_end 1 = Inr [South]"
    by code_simp
  have n: "neighbor_open (walls dead_end) (configuration (agent_at (1, 2) North False 0)) South"
    by code_simp
  from ghost_never_stops_or_reverses [OF g o l] g o l n show ?thesis
    by simp
qed

section \<open>The score of a transition\<close>

lemma pre_collision_score:
  assumes "pre_collision h s i a = Inr (h1, m)"
  shows "score m = score s"
  using assms pre_collision_pacman(1) [of h s a h1 m] pre_collision_ghost [of h s i a h1 m]
  by (cases "i = 0") auto

lemma generateSuccessor_parts:
  assumes gs: "generateSuccessor h s i a = Inr (h', s')"
    and pc: "pre_collision h s i a = Inr (h1, m)"
    and pp: "getPacmanPosition m = Inr pac"
  shows "score s' = score s + scoreChange m + sum_list (map (collision_payoff m pac) (checked m i))"
    and "win s' = win m" and "foodEaten s' = foodEaten m" and "food s' = food m"
    and "agentStates s' = agentStates (resolve m pac (checked m i))"
    and "lose s' = lose (resolve m pac (checked m i))"
proof -
  from generateSuccessor_Inr(2) [OF gs] pc pp
  have s': "s' = (resolve m pac (checked m i))\<lparr> agentMoved := Some i,
                 score := score m + scoreChange (resolve m pac (checked m i)) \<rparr>"
    by auto
  note fr = resolve_frame [of m pac "checked m i"]
  show "score s' = score s + scoreChange m + sum_list (map (collision_payoff m pac) (checked m i))"
    by (simp add: s' resolve_score [OF checked_distinct] pre_collision_score [OF pc])
  show "win s' = win m" "foodEaten s' = foodEaten m" "food s' = food m"
    using fr by (simp_all add: s')
  show "agentStates s' = agentStates (resolve m pac (checked m i))"
    "lose s' = lose (resolve m pac (checked m i))"
    by (simp_all add: s')
qed

lemma generateSuccessor_pre_collision:
  assumes "generateSuccessor h s i a = Inr (h', s')"
  obtains h1 m pac where "pre_collision h s i a = Inr (h1, m)" and "getPacmanPosition m = Inr pac"
  using generateSuccessor_Inr(2) [OF assms] by blast

lemma no_collision_payoff:
  assumes "\<forall>k \<in> set ks. \<not> canKill pac (pos (configuration (agentStates m ! k)))"
  shows "sum_list (map (collision_payoff m pac) ks) = 0"
  using assms by (induction ks) (simp_all add: collision_payoff_no_kill)

lemma pre_collision_food_reward:
  assumes "pre_collision h s 0 a = Inr (h1, m)"
  shows "scoreChange m = food_reward m - TIME_PENALTY"
  using pre_collision_pacman(2) [OF assms]
  by (auto simp: food_reward_def TIME_PENALTY_def)

text \<open>
  C10. Pacman's transition changes the score by the food reward and the collision payoffs,
  less the time penalty of 1; a ghost's transition changes it by the collision payoff
  alone. So a move of Pacman that eats no food and meets no ghost lowers the score by
  exactly 1, and a move of a ghost that does not meet Pacman leaves it as it is.
\<close>

theorem time_penalty_for_pacman_only:
  assumes "generateSuccessor h s agentIndex action = Inr (h', s')"
  shows "\<exists>h1 m pac. pre_collision h s agentIndex action = Inr (h1, m)
     \<and> getPacmanPosition m = Inr pac
     \<and> (agentIndex = 0 \<longrightarrow>
          score s' = score s + food_reward s'
            + sum_list (map (collision_payoff m pac) (checked m agentIndex)) - TIME_PENALTY)
     \<and> (agentIndex \<noteq> 0 \<longrightarrow>
          score s' = score s + sum_list (map (collision_payoff m pac) (checked m agentIndex)))
     \<and> ((\<forall>k \<in> set (checked m agentIndex).
            \<not> canKill pac (pos (configuration (agentStates m ! k)))) \<longrightarrow>
          (agentIndex = 0 \<and> foodEaten s' = None \<longrightarrow> score s' = score s - 1)
        \<and> (agentIndex \<noteq> 0 \<longrightarrow> score s' = score s))"
proof -
  from assms obtain h1 m pac where pc: "pre_collision h s agentIndex action = Inr (h1, m)"
    and pp: "getPacmanPosition m = Inr pac"
    by (rule generateSuccessor_pre_collision)
  note parts = generateSuccessor_parts [OF assms pc pp]
  have fr: "food_reward s' = food_reward m"
    by (simp add: food_reward_def parts)
  have pac0: "agentIndex = 0 \<Longrightarrow> scoreChange m = food_reward s' - TIME_PENALTY"
    using pc by (simp add: fr pre_collision_food_reward)
  have gh: "agentIndex \<noteq> 0 \<Longrightarrow> scoreChange m = 0"
    using pre_collision_ghost [OF pc] by auto
  have none: "foodEaten s' = None \<Longrightarrow> food_reward s' = 0"
    by (simp add: food_reward_def)
  from parts(1) pac0 gh none have
    "(agentIndex = 0 \<longrightarrow>
          score s' = score s + food_reward s'
            + sum_list (map (collision_payoff m pac) (checked m agentIndex)) - TIME_PENALTY)
     \<and> (agentIndex \<noteq> 0 \<longrightarrow>
          score s' = score s + sum_list (map (collision_payoff m pac) (checked m agentIndex)))
     \<and> ((\<forall>k \<in> set (checked m agentIndex).
            \<not> canKill pac (pos (configuration (agentStates m ! k)))) \<longrightarrow>
          (agentIndex = 0 \<and> foodEaten s' = None \<longrightarrow> score s' = score s - 1)
        \<and> (agentIndex \<noteq> 0 \<longrightarrow> score s' = score s))"
    by (auto simp: no_collision_payoff TIME_PENALTY_def)
  with pc pp show ?thesis by blast
qed

theorem time_penalty_for_pacman_only_witness:
  "(case generateSuccessor store0 quiet 0 East of
      Inl e \<Rightarrow> False | Inr (h', s') \<Rightarrow> foodEaten s' = None \<and> score s' = score quiet - 1)
   \<and> (case generateSuccessor store0 quiet 1 West of
      Inl e \<Rightarrow> False | Inr (h', s') \<Rightarrow> score s' = score quiet)"
proof -
  have "isl (generateSuccessor store0 quiet 0 East) = False"
    by code_simp
  then obtain h' s' where gs: "generateSuccessor store0 quiet 0 East = Inr (h', s')"
    by (cases "generateSuccessor store0 quiet 0 East") auto
  have "map_sum id (\<lambda>(h', s'). foodEaten s') (generateSuccessor store0 quiet 0 East) = Inr None"
    by code_simp
  with gs have fe: "foodEaten s' = None" by simp
  have far: "(case pre_collision store0 quiet 0 East of Inl e \<Rightarrow> False
      | Inr (h1, m) \<Rightarrow> list_all (\<lambda>k. \<not> canKill (pos (configuration (agentStates m ! 0)))
          (pos (configuration (agentStates m ! k)))) (checked m 0))"
    by code_simp
  from time_penalty_for_pacman_only [OF gs] obtain h1 m pac where
    pc: "pre_collision store0 quiet 0 East = Inr (h1, m)"
    and pp: "getPacmanPosition m = Inr pac"
    and imp: "(\<forall>k \<in> set (checked m 0). \<not> canKill pac (pos (configuration (agentStates m ! k)))) \<longrightarrow>
          ((0 :: int) = 0 \<and> foodEaten s' = None \<longrightarrow> score s' = score quiet - 1)
        \<and> ((0 :: int) \<noteq> 0 \<longrightarrow> score s' = score quiet)"
    by blast
  from pp have "pac = pos (configuration (agentStates m ! 0))"
    by (simp add: getPacmanPosition_Inr)
  with far pc imp fe have one: "score s' = score quiet - 1"
    by (simp add: list_all_iff)
  have "isl (generateSuccessor store0 quiet 1 West) = False"
    by code_simp
  then obtain h'' s'' where gs2: "generateSuccessor store0 quiet 1 West = Inr (h'', s'')"
    by (cases "generateSuccessor store0 quiet 1 West") auto
  have far2: "(case pre_collision store0 quiet 1 West of Inl e \<Rightarrow> False
      | Inr (h1, m) \<Rightarrow> list_all (\<lambda>k. \<not> canKill (pos (configuration (agentStates m ! 0)))
          (pos (configuration (agentStates m ! k)))) (checked m 1))"
    by code_simp
  from time_penalty_for_pacman_only [OF gs2] obtain h2 m2 pac2 where
    pc2: "pre_collision store0 quiet 1 West = Inr (h2, m2)"
    and pp2: "getPacmanPosition m2 = Inr pac2"
    and imp2: "(\<forall>k \<in> set (checked m2 1). \<not> canKill pac2 (pos (configuration (agentStates m2 ! k)))) \<longrightarrow>
          ((1 :: int) = 0 \<and> foodEaten s'' = None \<longrightarrow> score s'' = score quiet - 1)
        \<and> ((1 :: int) \<noteq> 0 \<longrightarrow> score s'' = score quiet)"
    by blast
  from pp2 have "pac2 = pos (configuration (agentStates m2 ! 0))"
    by (simp add: getPacmanPosition_Inr)
  with far2 pc2 imp2 have two: "score s'' = score quiet"
    by (simp add: list_all_iff)
  from gs gs2 fe one two show ?thesis by simp
qed

section \<open>Eating the last food cell\<close>






section \<open>Collisions\<close>

lemma decrementTimer_start [simp]: "start (decrementTimer g) = start g"
  by (simp add: decrementTimer_def Let_def)

lemma ghost_moved_start [simp]: "start (ghost_moved g a) = start g"
  by (simp add: ghost_moved_def)

lemma py_index_unique: "py_index n i = Inr k \<Longrightarrow> py_index n i = Inr k' \<Longrightarrow> k = k'"
  by simp

lemma checked_ghost:
  assumes "pre_collision h s i a = Inr (h1, m)" and "i \<noteq> 0"
  obtains k where "py_index (length (agentStates s)) i = Inr k" and "checked m i = [k]"
    and "k < length (agentStates s)"
    and "agentStates m = (agentStates s)[k := decrementTimer (ghost_moved (agentStates s ! k) a)]"
proof -
  from pre_collision_ghost [OF assms] obtain k where
    k: "py_index (length (agentStates s)) i = Inr k"
    and m: "agentStates m = (agentStates s)[k := decrementTimer (ghost_moved (agentStates s ! k) a)]"
    by blast
  from m have "length (agentStates m) = length (agentStates s)" by simp
  with k assms(2) have c: "checked m i = [k]" by (simp add: checked_def)
  show ?thesis
    by (rule that [OF k c py_index_Inr [OF k] m])
qed

lemma pre_collision_start:
  assumes "pre_collision h s i a = Inr (h1, m)" and "k \<in> set (checked m i)"
  shows "start (agentStates m ! k) = start (agentStates s ! k)"
proof (cases "i = 0")
  case True
  from assms(1) True have pc: "pre_collision h s 0 a = Inr (h1, m)" by simp
  from pre_collision_pacman(1) [OF pc]
  have len: "length (agentStates m) = length (agentStates s)"
    and all: "\<forall>k. 0 < k \<and> k < length (agentStates s) \<longrightarrow>
           configuration (agentStates m ! k) = configuration (agentStates s ! k)
         \<and> start (agentStates m ! k) = start (agentStates s ! k)"
    by blast+
  from assms(2) True len have "0 < k \<and> k < length (agentStates s)"
    by (simp add: checked_def)
  with all show ?thesis by blast
next
  case False
  from checked_ghost [OF assms(1) False] obtain k' where c: "checked m i = [k']"
    and kl: "k' < length (agentStates s)"
    and m: "agentStates m = (agentStates s)[k' := decrementTimer (ghost_moved (agentStates s ! k') a)]"
    by blast
  from assms(2) c have "k = k'" by simp
  with kl show ?thesis by (simp add: m)
qed

text \<open>
  C3, as stated, fails when it is Pacman who moves: in \<open>caught\<close>, with score 100, Pacman
  steps onto the cell of a ghost that is not scared. The ghost is within the tolerance,
  its timer is 0 and win is not set, yet the score falls by 501 to -401, the time penalty
  included, not by 500. (The lose flag is set.)
\<close>

theorem pacman_caught_scores_minus_401:
  "score caught = 100
   \<and> map_sum id (\<lambda>(h1, m). (canKill (pos (configuration (agentStates m ! 0)))
                               (pos (configuration (agentStates m ! 1))),
                             scaredTimer (agentStates m ! 1), win m))
        (pre_collision store0 caught 0 East) = Inr (True, 0, False)
   \<and> map_sum id (\<lambda>(h', s'). (score s', lose s')) (generateSuccessor store0 caught 0 East)
        = Inr (- 401, True)"
  by code_simp

text \<open>
  It also fails for a ghost that is not examined: after a ghost's move \<open>checkDeath\<close>
  looks at the mover only. In \<open>overlooked\<close> the second ghost moves; the first one stays
  on Pacman's cell with timer 0, and neither the score nor the lose flag changes.
\<close>

lemma ghost_turn_checks_the_mover_only:
  "score overlooked = 100
   \<and> map_sum id (\<lambda>(h', s'). (canKill (pos (configuration (agentStates s' ! 0)))
                               (pos (configuration (agentStates s' ! 1))),
                             scaredTimer (agentStates s' ! 1), win s', score s', lose s'))
        (generateSuccessor store0 overlooked 2 West) = Inr (True, 0, False, 100, False)"
  by code_simp

text \<open>
  C3, amended. Take a transition, the snapshot \<open>m\<close> in which its collisions are resolved,
  and an entry \<open>k\<close> that \<open>checkDeath\<close> examines (every ghost after Pacman's move, the
  mover after a ghost's move) and that is within the collision tolerance of Pacman. If the
  ghost's timer is positive in \<open>m\<close>, 200 is added to the score change, the ghost is back
  in its start configuration in the successor and its timer is 0. If the timer is not
  positive and win is not set, 500 is subtracted and the lose flag is set. After a ghost's
  own move nothing else enters the score; after Pacman's move the score change of the
  move itself (food reward less time penalty) and the payoffs of the other ghosts do.
\<close>

theorem collision_payoffs:
  assumes "generateSuccessor h s agentIndex action = Inr (h', s')"
    and "pre_collision h s agentIndex action = Inr (h1, m)"
    and "getPacmanPosition m = Inr pac"
    and "k \<in> set (checked m agentIndex)"
    and "canKill pac (pos (configuration (agentStates m ! k)))"
  shows "(scaredTimer (agentStates m ! k) > 0 \<longrightarrow>
            score s' = score s + scoreChange m + 200
              + sum_list (map (collision_payoff m pac) (remove1 k (checked m agentIndex)))
          \<and> configuration (agentStates s' ! k) = start (agentStates s ! k)
          \<and> scaredTimer (agentStates s' ! k) = 0)
     \<and> (\<not> scaredTimer (agentStates m ! k) > 0 \<and> \<not> win m \<longrightarrow>
            score s' = score s + scoreChange m - 500
              + sum_list (map (collision_payoff m pac) (remove1 k (checked m agentIndex)))
          \<and> lose s')
     \<and> (agentIndex \<noteq> 0 \<longrightarrow>
            scoreChange m = 0 \<and> \<not> win m \<and> remove1 k (checked m agentIndex) = [])"
proof -
  note parts = generateSuccessor_parts [OF assms(1-3)]
  note kl = checked_bound [OF assms(4)]
  let ?rest = "sum_list (map (collision_payoff m pac) (remove1 k (checked m agentIndex)))"
  have "sum_list (map (collision_payoff m pac) (checked m agentIndex)) = collision_payoff m pac k + ?rest"
    by (rule sum_list_map_remove1 [OF assms(4)])
  with parts(1) have sc: "score s' = score s + scoreChange m + collision_payoff m pac k + ?rest"
    by linarith
  from resolve_agent [OF checked_distinct assms(4,5) kl]
  have r: "agentStates (resolve m pac (checked m agentIndex)) ! k = agentStates (collision_result m k) ! k"
    and l: "\<not> scaredTimer (agentStates m ! k) > 0 \<and> \<not> win m \<longrightarrow> lose (resolve m pac (checked m agentIndex))"
    by blast+
  from r have ag: "agentStates s' ! k = agentStates (collision_result m k) ! k"
    by (simp only: parts(5))
  from l have lo: "\<not> scaredTimer (agentStates m ! k) > 0 \<and> \<not> win m \<longrightarrow> lose s'"
    by (simp only: parts(6))
  note st = pre_collision_start [OF assms(2,4)]
  have first: "scaredTimer (agentStates m ! k) > 0 \<longrightarrow>
            score s' = score s + scoreChange m + 200 + ?rest
          \<and> configuration (agentStates s' ! k) = start (agentStates s ! k)
          \<and> scaredTimer (agentStates s' ! k) = 0"
  proof
    assume t: "scaredTimer (agentStates m ! k) > 0"
    with assms(5) have "collision_payoff m pac k = 200"
      by (simp add: collision_payoff_def Let_def)
    with sc have "score s' = score s + scoreChange m + 200 + ?rest" by simp
    moreover from t kl have "agentStates s' ! k =
        (agentStates m ! k)\<lparr> configuration := start (agentStates m ! k), scaredTimer := 0 \<rparr>"
      by (simp add: ag collision_result_same Let_def)
    ultimately show "score s' = score s + scoreChange m + 200 + ?rest
          \<and> configuration (agentStates s' ! k) = start (agentStates s ! k)
          \<and> scaredTimer (agentStates s' ! k) = 0"
      by (simp add: st)
  qed
  have second: "\<not> scaredTimer (agentStates m ! k) > 0 \<and> \<not> win m \<longrightarrow>
            score s' = score s + scoreChange m - 500 + ?rest \<and> lose s'"
  proof
    assume t: "\<not> scaredTimer (agentStates m ! k) > 0 \<and> \<not> win m"
    with assms(5) have "collision_payoff m pac k = - 500"
      by (simp add: collision_payoff_def Let_def)
    with sc have "score s' = score s + scoreChange m - 500 + ?rest" by simp
    with t lo show "score s' = score s + scoreChange m - 500 + ?rest \<and> lose s'"
      by blast
  qed
  have third: "agentIndex \<noteq> 0 \<longrightarrow>
      scoreChange m = 0 \<and> \<not> win m \<and> remove1 k (checked m agentIndex) = []"
  proof
    assume i: "agentIndex \<noteq> 0"
    from pre_collision_ghost [OF assms(2) i] have z: "scoreChange m = 0" "\<not> win m"
      by blast+
    from checked_ghost [OF assms(2) i] obtain k' where "checked m agentIndex = [k']"
      by blast
    with assms(4) have "remove1 k (checked m agentIndex) = []"
      by simp
    with z show "scoreChange m = 0 \<and> \<not> win m \<and> remove1 k (checked m agentIndex) = []"
      by blast
  qed
  from first second third show ?thesis
    by (intro conjI)
qed

theorem collision_payoffs_witness:
  "(case generateSuccessor store0 scared_neighbour 1 West of
      Inl e \<Rightarrow> False
    | Inr (h', s') \<Rightarrow> score s' = score scared_neighbour + 200
        \<and> configuration (agentStates s' ! 1) = start (agentStates scared_neighbour ! 1)
        \<and> scaredTimer (agentStates s' ! 1) = 0)
   \<and> (case generateSuccessor store0 caught 1 West of
      Inl e \<Rightarrow> False
    | Inr (h', s') \<Rightarrow> score s' = - 400 \<and> lose s')"
proof -
  have "isl (generateSuccessor store0 scared_neighbour 1 West) = False"
    by code_simp
  then obtain h' s' where gs: "generateSuccessor store0 scared_neighbour 1 West = Inr (h', s')"
    by (cases "generateSuccessor store0 scared_neighbour 1 West") auto
  from gs obtain h1 m pac where pc: "pre_collision store0 scared_neighbour 1 West = Inr (h1, m)"
    and pp: "getPacmanPosition m = Inr pac"
    by (rule generateSuccessor_pre_collision)
  have "(case pre_collision store0 scared_neighbour 1 West of Inl e \<Rightarrow> False
      | Inr (h1, m) \<Rightarrow> checked m 1 = [1]
          \<and> canKill (pos (configuration (agentStates m ! 0))) (pos (configuration (agentStates m ! 1)))
          \<and> scaredTimer (agentStates m ! 1) = 4)"
    by code_simp
  with pc pp have k: "1 \<in> set (checked m 1)"
    and ck: "canKill pac (pos (configuration (agentStates m ! 1)))"
    and t: "scaredTimer (agentStates m ! 1) > 0"
    by (simp_all add: getPacmanPosition_Inr)
  from collision_payoffs [OF gs pc pp k ck] t
  have one: "score s' = score scared_neighbour + 200
        \<and> configuration (agentStates s' ! 1) = start (agentStates scared_neighbour ! 1)
        \<and> scaredTimer (agentStates s' ! 1) = 0"
    by simp
  have "isl (generateSuccessor store0 caught 1 West) = False"
    by code_simp
  then obtain h'' s'' where gs2: "generateSuccessor store0 caught 1 West = Inr (h'', s'')"
    by (cases "generateSuccessor store0 caught 1 West") auto
  from gs2 obtain h2 m2 pac2 where pc2: "pre_collision store0 caught 1 West = Inr (h2, m2)"
    and pp2: "getPacmanPosition m2 = Inr pac2"
    by (rule generateSuccessor_pre_collision)
  have "(case pre_collision store0 caught 1 West of Inl e \<Rightarrow> False
      | Inr (h1, m) \<Rightarrow> checked m 1 = [1]
          \<and> canKill (pos (configuration (agentStates m ! 0))) (pos (configuration (agentStates m ! 1)))
          \<and> scaredTimer (agentStates m ! 1) = 0)"
    by code_simp
  with pc2 pp2 have k2: "1 \<in> set (checked m2 1)"
    and ck2: "canKill pac2 (pos (configuration (agentStates m2 ! 1)))"
    and t2: "\<not> scaredTimer (agentStates m2 ! 1) > 0"
    by (simp_all add: getPacmanPosition_Inr)
  have sc: "score caught = 100" by code_simp
  from collision_payoffs [OF gs2 pc2 pp2 k2 ck2] t2 sc
  have two: "score s'' = - 400 \<and> lose s''"
    by simp
  from gs gs2 one two show ?thesis by simp
qed

section \<open>The scared timer\<close>

lemma decrementTimer_timer: "scaredTimer (decrementTimer g) = max 0 (scaredTimer g - 1)"
  by (simp add: decrementTimer_def Let_def)

lemma decrementTimer_snap:
  "scaredTimer g = 1 \<Longrightarrow>
   pos (configuration (decrementTimer g)) = point (nearestPoint (pos (configuration g)))"
  by (simp add: decrementTimer_def Let_def)

lemma ghost_moved_timer [simp]: "scaredTimer (ghost_moved g a) = scaredTimer g"
  by (simp add: ghost_moved_def)

text \<open>
  C6, as stated, fails when the mover is eaten on its own turn: in \<open>scared_neighbour\<close>
  the ghost has five scared moves left and steps towards Pacman; the collision that follows
  sets its timer to 0, a decrease by 5.
\<close>

theorem eaten_ghost_loses_its_timer:
  "scaredTimer (agentStates scared_neighbour ! 1) = 5
   \<and> map_sum id (\<lambda>(h', s'). scaredTimer (agentStates s' ! 1))
        (generateSuccessor store0 scared_neighbour 1 West) = Inr 0"
  by code_simp

text \<open>
  C6, amended. On a ghost's own transition, \<open>decrementTimer\<close> lowers its timer by 1 with
  floor 0 before the collision check; the successor carries that value unless the ghost,
  still scared, is then within the collision tolerance of Pacman, in which case its timer
  is 0. When the timer goes from 1 to 0, the position is snapped to the nearest grid point
  before the collision check, and the check leaves the ghost as it is.
\<close>

theorem scared_timer_on_own_turn:
  assumes "agentIndex \<noteq> 0"
    and "generateSuccessor h s agentIndex action = Inr (h', s')"
    and "pre_collision h s agentIndex action = Inr (h1, m)"
    and "getPacmanPosition m = Inr pac"
    and "py_index (length (agentStates s)) agentIndex = Inr k"
  shows "scaredTimer (agentStates m ! k) = max 0 (scaredTimer (agentStates s ! k) - 1)
     \<and> scaredTimer (agentStates s' ! k) =
         (if canKill pac (pos (configuration (agentStates m ! k)))
             \<and> 1 < scaredTimer (agentStates s ! k)
          then 0 else max 0 (scaredTimer (agentStates s ! k) - 1))
     \<and> (scaredTimer (agentStates s ! k) = 1 \<longrightarrow>
          pos (configuration (agentStates m ! k)) =
            point (nearestPoint (pos (configuration (ghost_moved (agentStates s ! k) action))))
        \<and> agentStates s' ! k = agentStates m ! k)"
proof -
  from checked_ghost [OF assms(3,1)] obtain k' where
    k': "py_index (length (agentStates s)) agentIndex = Inr k'"
    and c': "checked m agentIndex = [k']"
    and kl': "k' < length (agentStates s)"
    and m': "agentStates m = (agentStates s)[k' := decrementTimer (ghost_moved (agentStates s ! k') action)]"
    by blast
  from k' assms(5) have kk: "k' = k" by simp
  note c = c' [unfolded kk] and kl = kl' [unfolded kk] and m = m' [unfolded kk]
  let ?g = "agentStates s ! k"
  from kl have mk: "agentStates m ! k = decrementTimer (ghost_moved ?g action)"
    by (simp add: m)
  from kl have klm: "k < length (agentStates m)" by (simp add: m)
  have t1: "scaredTimer (agentStates m ! k) = max 0 (scaredTimer ?g - 1)"
    by (simp add: mk decrementTimer_timer)
  note parts = generateSuccessor_parts [OF assms(2-4)]
  have s'k: "agentStates s' ! k =
      (if canKill pac (pos (configuration (agentStates m ! k)))
       then agentStates (collision_result m k) ! k else agentStates m ! k)"
    by (simp add: parts(5) c)
  have cr: "agentStates (collision_result m k) ! k =
      (if scaredTimer (agentStates m ! k) > 0
       then (agentStates m ! k)\<lparr> configuration := start (agentStates m ! k), scaredTimer := 0 \<rparr>
       else agentStates m ! k)"
    using klm by (simp add: collision_result_same Let_def)
  have t2: "scaredTimer (agentStates s' ! k) =
         (if canKill pac (pos (configuration (agentStates m ! k))) \<and> 1 < scaredTimer ?g
          then 0 else max 0 (scaredTimer ?g - 1))"
    unfolding s'k cr using t1 by (simp split: if_splits)
  have t3: "scaredTimer ?g = 1 \<longrightarrow>
          pos (configuration (agentStates m ! k)) =
            point (nearestPoint (pos (configuration (ghost_moved ?g action))))
        \<and> agentStates s' ! k = agentStates m ! k"
  proof
    assume one: "scaredTimer ?g = 1"
    then have "pos (configuration (agentStates m ! k)) =
            point (nearestPoint (pos (configuration (ghost_moved ?g action))))"
      by (simp add: mk decrementTimer_snap)
    moreover from one t1 have "\<not> scaredTimer (agentStates m ! k) > 0" by simp
    then have "agentStates s' ! k = agentStates m ! k"
      by (simp add: s'k cr)
    ultimately show "pos (configuration (agentStates m ! k)) =
            point (nearestPoint (pos (configuration (ghost_moved ?g action))))
        \<and> agentStates s' ! k = agentStates m ! k"
      by blast
  qed
  from t1 t2 t3 show ?thesis by (intro conjI)
qed

theorem scared_timer_on_own_turn_witness:
  "scaredTimer (agentStates last_scared_move ! 1) = 1
   \<and> (case generateSuccessor store0 last_scared_move 1 West of
      Inl e \<Rightarrow> False
    | Inr (h', s') \<Rightarrow> scaredTimer (agentStates s' ! 1) = 0
        \<and> pos (configuration (agentStates s' ! 1)) = (3, 1))"
proof -
  have "isl (generateSuccessor store0 last_scared_move 1 West) = False"
    by code_simp
  then obtain h' s' where gs: "generateSuccessor store0 last_scared_move 1 West = Inr (h', s')"
    by (cases "generateSuccessor store0 last_scared_move 1 West") auto
  from gs obtain h1 m pac where pc: "pre_collision store0 last_scared_move 1 West = Inr (h1, m)"
    and pp: "getPacmanPosition m = Inr pac"
    by (rule generateSuccessor_pre_collision)
  have k: "py_index (length (agentStates last_scared_move)) 1 = Inr 1"
    by code_simp
  have t: "scaredTimer (agentStates last_scared_move ! 1) = 1"
    by code_simp
  have p: "point (nearestPoint (pos (configuration
      (ghost_moved (agentStates last_scared_move ! 1) West)))) = (3, 1)"
    by code_simp
  have i: "(1 :: int) \<noteq> 0" by simp
  from scared_timer_on_own_turn [OF i gs pc pp k] t p
  have "scaredTimer (agentStates s' ! 1) = 0
        \<and> pos (configuration (agentStates s' ! 1)) = (3, 1)"
    by simp
  with gs t show ?thesis by simp
qed

section \<open>The predecessor of a transition\<close>

text \<open>
  What a transition does to the store: \<open>collide\<close> writes at the address of the \<^verbatim>\<open>_eaten\<close>
  list of the snapshot it works on, and nowhere else.
\<close>

lemma collide_store:
  assumes "collide h st k i = Inr (h', st')"
  shows "fresh h' = fresh h \<and> (\<forall>a. a \<noteq> eaten st \<longrightarrow> cells h' a = cells h a)"
  using assms
  by (auto simp: collide_def Let_def bindE_eq_Inr split: if_splits)

lemma checkDeath_loop_store:
  assumes "checkDeath_loop h st pac ks = Inr (h', st')"
  shows "fresh h' = fresh h \<and> (\<forall>a. a \<noteq> eaten st \<longrightarrow> cells h' a = cells h a)"
  using assms
proof (induction ks arbitrary: h st)
  case Nil
  then show ?case by simp
next
  case (Cons k ks)
  show ?case
  proof (cases "canKill pac (pos (configuration (agentStates st ! k)))")
    case True
    with Cons.prems obtain h1 st1 where c: "collide h st k (int k) = Inr (h1, st1)"
      and l: "checkDeath_loop h1 st1 pac ks = Inr (h', st')"
      by (auto simp: Let_def bindE_eq_Inr)
    from collide_Inr [OF c] have "eaten st1 = eaten st" by simp
    with Cons.IH [OF l] collide_store [OF c] show ?thesis by simp
  next
    case False
    with Cons.prems have "checkDeath_loop h st pac ks = Inr (h', st')"
      by (simp add: Let_def)
    from Cons.IH [OF this] show ?thesis .
  qed
qed

lemma checkDeath_store:
  assumes "checkDeath h st i = Inr (h', st')"
  shows "fresh h' = fresh h \<and> (\<forall>a. a \<noteq> eaten st \<longrightarrow> cells h' a = cells h a)"
proof -
  from assms obtain pac where p: "getPacmanPosition st = Inr pac"
    by (auto simp: checkDeath_def bindE_eq_Inr)
  show ?thesis
  proof (cases "i = 0")
    case True
    with assms p have "checkDeath_loop h st pac [1 ..< length (agentStates st)] = Inr (h', st')"
      by (simp add: checkDeath_def)
    then show ?thesis by (rule checkDeath_loop_store)
  next
    case False
    with assms p obtain k where
      c: "(if canKill pac (pos (configuration (agentStates st ! k)))
           then collide h st k i else Inr (h, st)) = Inr (h', st')"
      by (auto simp: checkDeath_def bindE_eq_Inr Let_def)
    show ?thesis
    proof (cases "canKill pac (pos (configuration (agentStates st ! k)))")
      case True
      with c have "collide h st k i = Inr (h', st')" by simp
      then show ?thesis by (rule collide_store)
    next
      case False
      with c show ?thesis by simp
    qed
  qed
qed

lemma PacmanRules_applyAction_eaten:
  assumes "PacmanRules_applyAction st a = Inr st'"
  shows "eaten st' = eaten st"
proof -
  from PacmanRules_applyAction_Inr(2) [OF assms] show ?thesis
  proof
    assume "st' = pacman_moved st a"
    then show ?thesis by simp
  next
    assume c: "consume (nearestPoint (pos (configuration (agentStates (pacman_moved st a) ! 0))))
      (pacman_moved st a) = Inr st'"
    obtain x y where "nearestPoint (pos (configuration (agentStates (pacman_moved st a) ! 0))) = (x, y)"
      by (cases "nearestPoint (pos (configuration (agentStates (pacman_moved st a) ! 0)))")
    with c have "consume (x, y) (pacman_moved st a) = Inr st'" by simp
    from consume_Inr(1) [OF this] show ?thesis by simp
  qed
qed

text \<open>
  Pacman's move gives the successor a new list and leaves every list that was in the store
  untouched. A ghost's move can change the store only at the address of the predecessor's
  own list.
\<close>

lemma generateSuccessor_store:
  assumes "generateSuccessor h s i a = Inr (h', s')"
  shows "i = 0 \<longrightarrow> eaten s' = fresh h \<and> (\<forall>a. a \<noteq> fresh h \<longrightarrow> cells h' a = cells h a)"
    and "i \<noteq> 0 \<longrightarrow> eaten s' = eaten s \<and> (\<forall>a. a \<noteq> eaten s \<longrightarrow> cells h' a = cells h a)"
proof -
  from assms obtain h1 st1 st2 st3 where
    mv: "move_phase h (GameStateData_init s) i a = Inr (h1, st1)"
    and tm: "time_phase st1 i = Inr st2"
    and cd: "checkDeath h1 st2 i = Inr (h', st3)"
    and s': "s' = st3\<lparr> agentMoved := Some i, score := score st3 + scoreChange st3 \<rparr>"
    by (auto simp: generateSuccessor_def isWin_def isLose_def Let_def bindE_eq_Inr split: if_splits)
  from checkDeath_Inr [OF cd] obtain pac where "st3 = resolve st2 pac (checked st2 i)"
    by blast
  with resolve_frame [of st2 pac "checked st2 i"] s' have e3: "eaten s' = eaten st2"
    by simp
  note cs = checkDeath_store [OF cd]
  show "i = 0 \<longrightarrow> eaten s' = fresh h \<and> (\<forall>a. a \<noteq> fresh h \<longrightarrow> cells h' a = cells h a)"
  proof
    assume i: "i = 0"
    with mv obtain st0 where p: "PacmanRules_applyAction
        ((GameStateData_init s)\<lparr> eaten := fresh h \<rparr>) a = Inr st0"
      and h1: "h1 = \<lparr> cells = (cells h)(fresh h := replicate (nat (getNumAgents (GameStateData_init s))) False),
                     fresh = Suc (fresh h) \<rparr>"
      and st1: "st1 = st0"
      by (auto simp: move_phase_def store_alloc_def bindE_eq_Inr)
    from PacmanRules_applyAction_eaten [OF p] st1 have "eaten st1 = fresh h" by simp
    moreover from tm i have "eaten st2 = eaten st1" by (auto simp: time_phase_def)
    ultimately have e2: "eaten st2 = fresh h" by simp
    with cs h1 e3 show "eaten s' = fresh h \<and> (\<forall>a. a \<noteq> fresh h \<longrightarrow> cells h' a = cells h a)"
      by simp
  qed
  show "i \<noteq> 0 \<longrightarrow> eaten s' = eaten s \<and> (\<forall>a. a \<noteq> eaten s \<longrightarrow> cells h' a = cells h a)"
  proof
    assume i: "i \<noteq> 0"
    from mv tm have "pre_collision h s i a = Inr (h1, st2)"
      by (simp add: pre_collision_def)
    from pre_collision_ghost [OF this i] have "h1 = h" "eaten st2 = eaten s"
      by blast+
    with cs e3 show "eaten s' = eaten s \<and> (\<forall>a. a \<noteq> eaten s \<longrightarrow> cells h' a = cells h a)"
      by simp
  qed
qed

text \<open>
  C8. The successor of a ghost's move shares the \<^verbatim>\<open>_eaten\<close> list with its predecessor
  (the field \<open>eaten\<close> holds the same address), and \<open>collide\<close> writes into that list. In
  \<open>scared_neighbour\<close> the scared ghost steps next to Pacman and is eaten: the list of the
  predecessor, \<open>[False, False]\<close> before the call, is \<open>[False, True]\<close> after it.
\<close>

theorem predecessor_eaten_list_is_overwritten:
  "cells store0 (eaten scared_neighbour) = [False, False]
   \<and> map_sum id (\<lambda>(h', s'). (eaten s' = eaten scared_neighbour, cells h' (eaten scared_neighbour)))
        (generateSuccessor store0 scared_neighbour 1 West) = Inr (True, [False, True])"
  by code_simp

end
